theory Spec2Isabelle
  imports Complex_Main
begin

section \<open>Strings\<close>

text \<open>
  JavaScript strings are modelled as \<^typ>\<open>string\<close> (lists of bytes, UTF-8).
  \<open>toLowerCase\<close> folds the ASCII letters only; \<open>str_includes\<close> is substring search.
\<close>

definition toLowerCase :: "string \<Rightarrow> string" where
  "toLowerCase s =
     map (\<lambda>c. if 65 \<le> (of_char c :: nat) \<and> (of_char c :: nat) \<le> 90
              then char_of ((of_char c :: nat) + 32) else c) s"

primrec str_includes :: "string \<Rightarrow> string \<Rightarrow> bool" where
  "str_includes [] t = (t = [])"
| "str_includes (c # s) t = (take (length t) (c # s) = t \<or> str_includes s t)"

section \<open>Data model (types.ts)\<close>

datatype sender = Rep | Agent | System

fun sender_str :: "sender \<Rightarrow> string" where
  "sender_str Rep = ''rep''"
| "sender_str Agent = ''agent''"
| "sender_str System = ''system''"

record chat_message =
  msg_sender :: sender
  msg_text :: string
  msg_timestamp :: nat

text \<open>An entry of a decision result's \<open>newMessages\<close> array: \<open>{sender, text}\<close>.\<close>

record new_message =
  nm_sender :: sender
  nm_text :: string

datatype negotiation_state =
  Idle | Connecting | Reaching_human | Negotiating | Awaiting_approval | Paused | Done

record approval_request =
  req_id :: string
  req_description :: string
  req_repOffer :: string
  req_agentRecommendation :: string
  req_reasoning :: string
  req_counterSuggestion :: "string option"

datatype server_message =
    Chat_update "chat_message list"
  | Approval_required approval_request
  | Agent_thinking string
  | Agent_unsure string string
  | Status_update negotiation_state
  | Research_result string string
  | Error_message string

section \<open>Timers of the event loop\<close>

text \<open>
  \<open>setTimeout\<close> and \<open>clearTimeout\<close> act on a table of pending timers. An entry is
  the handle returned to the caller, the time at which the timer is due, and the
  callback it will run. A handle that has fired or was cleared is simply absent from
  the table; a field of the program may still hold it.
\<close>

type_synonym handle = nat

datatype callback =
    Debounce_cb string
  | Inactivity_cb
  | User_typing_cb
  | Stall_cb
  | Override_cb

type_synonym timeout = "handle \<times> real \<times> callback"

record timer_table =
  pending :: "timeout list"
  nextHandle :: handle

definition setTimeout :: "callback \<Rightarrow> real \<Rightarrow> real \<Rightarrow> timer_table \<Rightarrow> handle \<times> timer_table" where
  "setTimeout c delay now T =
     (nextHandle T,
      T\<lparr>pending := pending T @ [(nextHandle T, now + delay, c)],
        nextHandle := Suc (nextHandle T)\<rparr>)"

definition clearTimeout :: "handle \<Rightarrow> timer_table \<Rightarrow> timer_table" where
  "clearTimeout h T = T\<lparr>pending := filter (\<lambda>e. fst e \<noteq> h) (pending T)\<rparr>"

text \<open>The event loop takes a pending timer out of the table when it runs its callback.\<close>

definition take_timer :: "handle \<Rightarrow> timer_table \<Rightarrow> ((real \<times> callback) \<times> timer_table) option" where
  "take_timer h T =
     (case find (\<lambda>e. fst e = h) (pending T) of
        None \<Rightarrow> None
      | Some e \<Rightarrow> Some (snd e, T\<lparr>pending := filter (\<lambda>e. fst e \<noteq> h) (pending T)\<rparr>))"


section \<open>StallManager (stall-manager.ts)\<close>

definition STALL_MESSAGES :: "string list" where
  "STALL_MESSAGES =
     [''Let me review the details of that, one moment please'',
      ''I want to make sure I understand the offer correctly, give me just a sec'',
      ''Hmm let me think about that for a moment'',
      ''I'm looking over the terms, bear with me'',
      ''Just reviewing this with my partner, one moment'',
      ''Hold on, I want to double check something before I decide'',
      ''Give me a minute to consider this'',
      ''Still reviewing, thanks for your patience'',
      ''I want to make sure this works for me, almost done thinking it over'',
      ''Appreciate your patience, still considering'']"

definition FIRST_STALL_DELAY_MS :: real where "FIRST_STALL_DELAY_MS = 20000"
definition MIN_STALL_INTERVAL_MS :: real where "MIN_STALL_INTERVAL_MS = 45000"
definition MAX_STALL_JITTER_MS :: real where "MAX_STALL_JITTER_MS = 30000"

record stall_manager =
  timer :: "handle option"
  count :: nat

text \<open>
  \<open>schedule()\<close>; \<open>r\<close> is the value \<open>Math.random()\<close> returns, read only when the
  counter is not zero.
\<close>

definition stall_delay :: "real \<Rightarrow> nat \<Rightarrow> real" where
  "stall_delay r c =
     (if c = 0 then FIRST_STALL_DELAY_MS
      else MIN_STALL_INTERVAL_MS + r * MAX_STALL_JITTER_MS)"

definition stall_schedule ::
  "real \<Rightarrow> real \<Rightarrow> stall_manager \<times> timer_table \<Rightarrow> stall_manager \<times> timer_table" where
  "stall_schedule r now MT =
     (case MT of (M, T) \<Rightarrow>
        (case setTimeout Stall_cb (stall_delay r (count M)) now T of
           (h, T') \<Rightarrow> (M\<lparr>timer := Some h\<rparr>, T')))"

text \<open>\<open>start()\<close>: the counter is zero when \<open>schedule()\<close> runs, so no random value is drawn.\<close>

definition stall_start :: "real \<Rightarrow> stall_manager \<times> timer_table \<Rightarrow> stall_manager \<times> timer_table" where
  "stall_start now MT = (case MT of (M, T) \<Rightarrow> stall_schedule 0 now (M\<lparr>count := 0\<rparr>, T))"

definition stall_stop :: "stall_manager \<times> timer_table \<Rightarrow> stall_manager \<times> timer_table" where
  "stall_stop MT =
     (case MT of (M, T) \<Rightarrow>
        (case timer M of
           Some h \<Rightarrow> (M\<lparr>timer := None, count := 0\<rparr>, clearTimeout h T)
         | None \<Rightarrow> (M\<lparr>count := 0\<rparr>, T)))"

text \<open>
  \<open>fire()\<close> up to \<open>await this.onSend(msg)\<close>: the message to send and the manager
  with its counter advanced.
\<close>

definition stall_fire :: "stall_manager \<Rightarrow> string \<times> stall_manager" where
  "stall_fire M =
     (STALL_MESSAGES ! (count M mod length STALL_MESSAGES), M\<lparr>count := count M + 1\<rparr>)"

text \<open>
  \<open>fire()\<close> after the \<open>await\<close>: \<open>sent\<close> tells whether \<open>onSend\<close> resolved or
  rejected; the \<open>catch\<close> is empty, so both continue alike.
\<close>

definition stall_fire_end ::
  "bool \<Rightarrow> real \<Rightarrow> real \<Rightarrow> stall_manager \<times> timer_table \<Rightarrow> stall_manager \<times> timer_table" where
  "stall_fire_end sent r now MT =
     (if sent then (if timer (fst MT) \<noteq> None then stall_schedule r now MT else MT)
      else (if timer (fst MT) \<noteq> None then stall_schedule r now MT else MT))"


section \<open>Message deduplication (negotiation-agent.ts)\<close>

definition message_key :: "sender \<Rightarrow> string \<Rightarrow> string" where
  "message_key s t = sender_str s @ '':'' @ t"

definition deduplicateMessages :: "chat_message list \<Rightarrow> new_message list \<Rightarrow> new_message list" where
  "deduplicateMessages conv newMessages =
     (let known = set (map (\<lambda>m. message_key (msg_sender m) (msg_text m)) conv)
      in filter (\<lambda>m. message_key (nm_sender m) (nm_text m) \<notin> known) newMessages)"

text \<open>
  The entries the loop after \<open>deduplicateMessages\<close> pushes: the \<open>j\<close>-th surviving
  message gets the timestamp \<open>baseTs + j\<close>.
\<close>

fun stamped :: "nat \<Rightarrow> nat \<Rightarrow> new_message list \<Rightarrow> chat_message list" where
  "stamped baseTs j [] = []"
| "stamped baseTs j (m # ms) =
     \<lparr>msg_sender = nm_sender m, msg_text = nm_text m, msg_timestamp = baseTs + j\<rparr>
       # stamped baseTs (Suc j) ms"

section \<open>The negotiation agent: state (negotiation-agent.ts)\<close>

text \<open>The arguments of a tool call, as the three turn schemas of tools.ts give them.\<close>

record turn_args =
  newMessages :: "new_message list"
  humanDetected :: bool
  isCommitment :: bool
  offerDescription :: "string option"
  recommendation :: "string option"
  reasoning :: "string option"
  counterSuggestion :: "string option"
  action :: string
  response :: "string option"
  ref :: "string option"
  typed_text :: "string option"
  reason :: "string option"

text \<open>What \<open>chatWithTools\<close> settles with: it throws, or returns text, or a tool call.\<close>

datatype llm_result = Llm_failed | Llm_text string | Tool_call turn_args

text \<open>Calls made on the action surface (MCPClient).\<close>

datatype mcp_call = Mcp_click string | Mcp_type string string | Mcp_press_key string

text \<open>
  What the action surface does for one \<open>sendChatMessage\<close> or \<open>executeAction\<close>:
  a call throws, or the fetched snapshot has no chat input, or \<open>findChatInput\<close>
  finds the input with the given reference.
\<close>

datatype send_env = Surface_error | No_input | Input string

text \<open>
  An asynchronous function that is suspended at an \<open>await\<close>, with the variables
  its continuation reads.
\<close>

datatype task =
    Start_navigate bool
  | Kickoff_snapshot bool
  | Kickoff_llm bool
  | Reach_llm string
  | Reach_opening string
  | Negotiate_llm string
  | Negotiate_research turn_args
  | Commit_wait nat
  | Commit_snapshot bool
  | Commit_reply string
  | Extract_llm string
  | Inactivity_snapshot
  | Followup_snapshot
  | Followup_llm
  | Summary_llm
  | Fresh_snapshot
  | Override_send string
  | Stall_send string

text \<open>
  The values the environment supplies when an awaited operation settles: the clock,
  the snapshot (\<open>None\<close> when \<open>mcp.snapshot()\<close> throws), the structured and the plain
  answer of the model (\<open>None\<close> when \<open>llm.chat\<close> throws), the action surface, the
  research findings, a fresh UUID, \<open>Math.random()\<close>, and whether navigation worked.
\<close>

record outcome =
  o_now :: nat
  o_snapshot :: "string option"
  o_llm :: llm_result
  o_chat :: "string option"
  o_send :: send_env
  o_findings :: "string option"
  o_uuid :: string
  o_random :: real
  o_navigated :: bool

text \<open>
  The fields of \<open>NegotiationAgent\<close>, followed by what surrounds it: the timer table,
  the observer (polling, and the \<open>snapshot_changed\<close> listener), the rendezvous
  promises that were resolved (\<open>approvalResolve\<close> holds the number of the promise
  whose resolver it is), the suspended tasks, the messages passed to \<open>sendToUI\<close>,
  and the calls made on the action surface.
\<close>

record agent =
  serviceProvider :: string
  conversation :: "chat_message list"
  state :: negotiation_state
  debounceTimer :: "handle option"
  inactivityTimer :: "handle option"
  pendingApproval :: "approval_request option"
  approvalResolve :: "nat option"
  approvalDirective :: "string option"
  waitingForLLM :: bool
  pausedFromState :: "negotiation_state option"
  stallManager :: stall_manager
  userTypingTimer :: "handle option"
  userTyping :: bool
  timers :: timer_table
  polling :: bool
  listening :: bool
  resolved :: "(nat \<times> bool) list"
  nextPromise :: nat
  tasks :: "task list"
  ui :: "server_message list"
  outbound :: "mcp_call list"

definition new_agent :: "string \<Rightarrow> chat_message list \<Rightarrow> agent" where
  "new_agent provider priorConversation =
     \<lparr>serviceProvider = provider,
      conversation = priorConversation, state = Idle,
      debounceTimer = None, inactivityTimer = None,
      pendingApproval = None, approvalResolve = None, approvalDirective = None,
      waitingForLLM = False, pausedFromState = None,
      stallManager = \<lparr>timer = None, count = 0\<rparr>,
      userTypingTimer = None, userTyping = False,
      timers = \<lparr>pending = [], nextHandle = 0\<rparr>,
      polling = False, listening = False,
      resolved = [], nextPromise = 0, tasks = [],
      ui = (if priorConversation \<noteq> [] then [Chat_update priorConversation] else []),
      outbound = []\<rparr>"

definition INACTIVITY_MS :: real where "INACTIVITY_MS = 15000"
definition TYPING_INACTIVITY_MS :: real where "TYPING_INACTIVITY_MS = 5 * 60000"
definition USER_TYPING_DELAY_MS :: real where "USER_TYPING_DELAY_MS = 20000"

text \<open>A string used as a condition: \<open>undefined\<close>, \<open>null\<close> and \<open>""\<close> are falsy.\<close>

fun truthy :: "string option \<Rightarrow> bool" where
  "truthy None = False"
| "truthy (Some t) = (t \<noteq> [])"

section \<open>The negotiation agent: shared helpers\<close>

definition sendToUI :: "server_message \<Rightarrow> agent \<Rightarrow> agent" where
  "sendToUI m s = s\<lparr>ui := ui s @ [m]\<rparr>"

definition addMessage :: "chat_message \<Rightarrow> agent \<Rightarrow> agent" where
  "addMessage m s =
     sendToUI (Chat_update (conversation s @ [m])) (s\<lparr>conversation := conversation s @ [m]\<rparr>)"

definition setState :: "negotiation_state \<Rightarrow> agent \<Rightarrow> agent" where
  "setState st s = sendToUI (Status_update st) (s\<lparr>state := st\<rparr>)"

definition spawn :: "task \<Rightarrow> agent \<Rightarrow> agent" where
  "spawn t s = s\<lparr>tasks := tasks s @ [t]\<rparr>"

text \<open>\<open>if (t) clearTimeout(t)\<close>, which leaves the handle in the field.\<close>

fun cancel :: "handle option \<Rightarrow> timer_table \<Rightarrow> timer_table" where
  "cancel None T = T"
| "cancel (Some h) T = clearTimeout h T"

text \<open>\<open>if (t) { clearTimeout(t); t = null; }\<close> for the three timer fields.\<close>

definition clearDebounce :: "agent \<Rightarrow> agent" where
  "clearDebounce s = s\<lparr>timers := cancel (debounceTimer s) (timers s), debounceTimer := None\<rparr>"

definition clearInactivity :: "agent \<Rightarrow> agent" where
  "clearInactivity s = s\<lparr>timers := cancel (inactivityTimer s) (timers s), inactivityTimer := None\<rparr>"

definition clearUserTypingDelay :: "agent \<Rightarrow> agent" where
  "clearUserTypingDelay s =
     s\<lparr>timers := cancel (userTypingTimer s) (timers s), userTypingTimer := None,
       userTyping := False\<rparr>"

definition resetInactivityTimer :: "real \<Rightarrow> real \<Rightarrow> agent \<Rightarrow> agent" where
  "resetInactivityTimer ms now s =
     (case setTimeout Inactivity_cb ms now (cancel (inactivityTimer s) (timers s)) of
        (h, T) \<Rightarrow> s\<lparr>inactivityTimer := Some h, timers := T\<rparr>)"

definition detectTypingIndicator :: "string \<Rightarrow> bool" where
  "detectTypingIndicator snapshot =
     (let lower = toLowerCase snapshot
      in str_includes lower ''is typing'' \<or> str_includes lower ''is writing''
         \<or> str_includes lower ''typing...''
         \<or> str_includes lower (''typing'' @ [CHR 0xE2, CHR 0x80, CHR 0xA6])
         \<or> str_includes lower ''composing'')"

definition shouldResearch :: "string \<Rightarrow> bool" where
  "shouldResearch repMessage =
     list_ex (\<lambda>t. str_includes (toLowerCase repMessage) t)
       [''best we can do'', ''that's our current'', ''standard rate'',
        ''can't go lower'', ''our pricing'']"

text \<open>
  The block that follows every structured decision: deduplicate against the log, then
  push the survivors with the timestamps \<open>baseTs + j\<close>.
\<close>

definition appendNewMessages :: "nat \<Rightarrow> new_message list \<Rightarrow> agent \<Rightarrow> agent" where
  "appendNewMessages baseTs newMsgs s =
     foldl (\<lambda>s' m. addMessage m s') s
       (stamped baseTs 0 (deduplicateMessages (conversation s) newMsgs))"

text \<open>\<open>sendChatMessage\<close>; \<open>None\<close> when a call on the action surface throws.\<close>

fun sendChatMessage :: "send_env \<Rightarrow> string \<Rightarrow> agent \<Rightarrow> agent option" where
  "sendChatMessage Surface_error txt s = None"
| "sendChatMessage No_input txt s = Some s"
| "sendChatMessage (Input inputRef) txt s =
     Some (s\<lparr>outbound := outbound s
               @ [Mcp_click inputRef, Mcp_type inputRef txt, Mcp_press_key ''Enter'']\<rparr>)"

definition orElse :: "string option \<Rightarrow> string \<Rightarrow> string" where
  "orElse v d = (case v of None \<Rightarrow> d | Some t \<Rightarrow> t)"

text \<open>\<open>executeAction\<close>; \<open>None\<close> when a call on the action surface throws.\<close>

definition executeAction :: "send_env \<Rightarrow> nat \<Rightarrow> turn_args \<Rightarrow> agent \<Rightarrow> agent option" where
  "executeAction env now a s =
     (if action a = ''respond'' \<and> truthy (response a) then
        (case sendChatMessage env (orElse (response a) []) s of
           None \<Rightarrow> None
         | Some s' \<Rightarrow>
             Some (addMessage \<lparr>msg_sender = Agent, msg_text = orElse (response a) [],
                                msg_timestamp = now\<rparr> s'))
      else if action a = ''type'' \<and> truthy (ref a) \<and> truthy (typed_text a) then
        (if env = Surface_error then None
         else Some (addMessage \<lparr>msg_sender = Agent, msg_text = orElse (typed_text a) [],
                                  msg_timestamp = now\<rparr>
                      (s\<lparr>outbound := outbound s
                            @ [Mcp_click (orElse (ref a) []),
                               Mcp_type (orElse (ref a) []) (orElse (typed_text a) []),
                               Mcp_press_key ''Enter'']\<rparr>)))
      else if action a = ''click'' \<and> truthy (ref a) then
        (if env = Surface_error then None
         else Some (addMessage \<lparr>msg_sender = System,
                                  msg_text = ''Agent clicked: ''
                                     @ orElse (reason a) (orElse (ref a) []),
                                  msg_timestamp = now\<rparr>
                      (s\<lparr>outbound := outbound s @ [Mcp_click (orElse (ref a) [])]\<rparr>)))
      else if action a = ''needs_user'' then
        Some (sendToUI (Agent_unsure (orElse (reason a) ''I need your help to proceed.'')
                          ''The page may require sign-in or other user action.'')
                (addMessage \<lparr>msg_sender = System,
                              msg_text = ''Agent needs help: ''
                                 @ orElse (reason a) ''I need your help to proceed.'',
                              msg_timestamp = now\<rparr> s))
      else if action a = ''wait'' then
        Some (sendToUI (Agent_thinking (orElse (reason a) ''Waiting...'')) s)
      else Some s)"

text \<open>Resolving a promise: only the first resolution counts.\<close>

definition resolve_promise :: "nat \<Rightarrow> bool \<Rightarrow> (nat \<times> bool) list \<Rightarrow> (nat \<times> bool) list" where
  "resolve_promise p b rs = (if map_of rs p = None then rs @ [(p, b)] else rs)"

section \<open>The negotiation agent: commands\<close>

definition pause :: "agent \<Rightarrow> agent" where
  "pause s =
     (if state s = Paused \<or> state s = Idle \<or> state s = Done then s
      else clearInactivity (clearDebounce
             (setState Paused (s\<lparr>pausedFromState := Some (state s)\<rparr>))))"

text \<open>
  \<open>resume()\<close> up to \<open>await this.mcp.snapshot()\<close>; the task \<open>Fresh_snapshot\<close>
  continues with \<open>processTurn\<close> once the snapshot is there.
\<close>

definition resume :: "real \<Rightarrow> agent \<Rightarrow> agent" where
  "resume now s =
     (if state s \<noteq> Paused then s
      else (case pausedFromState s of
              None \<Rightarrow> s
            | Some restoreState \<Rightarrow>
                spawn Fresh_snapshot
                  (resetInactivityTimer INACTIVITY_MS now
                     (setState restoreState (s\<lparr>pausedFromState := None\<rparr>)))))"

definition startPaused :: "negotiation_state \<Rightarrow> agent \<Rightarrow> agent" where
  "startPaused restoreState s = setState Paused (s\<lparr>pausedFromState := Some restoreState\<rparr>)"

text \<open>\<open>stop()\<close> up to \<open>await this.summarize()\<close>, which it reaches when the log is not empty.\<close>

definition stop_now :: "agent \<Rightarrow> agent" where
  "stop_now s =
     (let s1 = (case stall_stop (stallManager s, timers s) of
                  (M, T) \<Rightarrow> s\<lparr>stallManager := M, timers := T\<rparr>);
          s2 = s1\<lparr>polling := False, listening := False\<rparr>;
          s3 = s2\<lparr>timers := cancel (userTypingTimer s2)
                                (cancel (inactivityTimer s2)
                                   (cancel (debounceTimer s2) (timers s2))),
                  userTyping := False\<rparr>;
          s4 = (case approvalResolve s3 of
                  None \<Rightarrow> s3
                | Some p \<Rightarrow> s3\<lparr>resolved := resolve_promise p False (resolved s3),
                                approvalResolve := None, pendingApproval := None\<rparr>)
      in setState Done (s4\<lparr>pausedFromState := None\<rparr>))"

definition stop :: "agent \<Rightarrow> agent" where
  "stop s =
     (let s' = stop_now s
      in if conversation s' \<noteq> [] then spawn Summary_llm s' else s')"

text \<open>
  The rest of \<open>stop()\<close>: \<open>summary\<close> is what \<open>summarize()\<close> settled with (\<open>None\<close>
  when it threw); the result pairs the value \<open>stop()\<close> returns with the agent.
\<close>

definition stop_summary :: "string option \<Rightarrow> nat \<Rightarrow> agent \<Rightarrow> string option \<times> agent" where
  "stop_summary summary now s =
     (case summary of
        None \<Rightarrow> (None, s)
      | Some text \<Rightarrow>
          (Some text,
           addMessage \<lparr>msg_sender = System,
                        msg_text = ''__SUMMARY__'' @ [CHR 0x0A] @ text,
                        msg_timestamp = now\<rparr> s))"

definition handleApproval :: "string \<Rightarrow> agent \<Rightarrow> agent" where
  "handleApproval requestId s =
     (case (pendingApproval s, approvalResolve s) of
        (Some req, Some p) \<Rightarrow>
          if req_id req = requestId
          then s\<lparr>approvalDirective := None, resolved := resolve_promise p True (resolved s)\<rparr>
          else s
      | _ \<Rightarrow> s)"

definition handleRejection :: "string \<Rightarrow> string option \<Rightarrow> agent \<Rightarrow> agent" where
  "handleRejection requestId directive s =
     (case (pendingApproval s, approvalResolve s) of
        (Some req, Some p) \<Rightarrow>
          if req_id req = requestId
          then s\<lparr>approvalDirective := directive,
                 resolved := resolve_promise p False (resolved s)\<rparr>
          else s
      | _ \<Rightarrow> s)"

definition handleUserDirective :: "string \<Rightarrow> nat \<Rightarrow> agent \<Rightarrow> agent" where
  "handleUserDirective txt now s =
     addMessage \<lparr>msg_sender = System, msg_text = ''User directive: '' @ txt,
                  msg_timestamp = now\<rparr> (clearUserTypingDelay s)"

definition handleUserTyping :: "real \<Rightarrow> agent \<Rightarrow> agent" where
  "handleUserTyping now s =
     (let s1 = clearInactivity (clearDebounce (s\<lparr>userTyping := True\<rparr>))
      in case setTimeout User_typing_cb USER_TYPING_DELAY_MS now
                (cancel (userTypingTimer s1) (timers s1)) of
           (h, T) \<Rightarrow> s1\<lparr>userTypingTimer := Some h, timers := T\<rparr>)"

text \<open>\<open>handleUserOverride\<close> up to \<open>await this.sendChatMessage(text)\<close>.\<close>

definition handleUserOverride :: "string \<Rightarrow> agent \<Rightarrow> agent" where
  "handleUserOverride txt s = spawn (Override_send txt) (clearUserTypingDelay s)"

section \<open>The negotiation agent: the turn loop\<close>

definition handleSnapshotChanged :: "string \<Rightarrow> real \<Rightarrow> agent \<Rightarrow> agent" where
  "handleSnapshotChanged snapshot now s =
     (if state s = Paused \<or> state s = Idle \<or> state s = Done then s
      else if userTyping s then s
      else (case setTimeout (Debounce_cb snapshot) 2000 now
                   (cancel (debounceTimer s) (timers s)) of
              (h, T) \<Rightarrow>
                (let s1 = s\<lparr>debounceTimer := Some h, timers := T\<rparr>
                 in if detectTypingIndicator snapshot
                    then resetInactivityTimer TYPING_INACTIVITY_MS now s1
                    else resetInactivityTimer INACTIVITY_MS now s1)))"

text \<open>
  The three turns up to their \<open>await this.llm.chatWithTools(...)\<close>: the guard, the
  flag, and the call that is now in flight.
\<close>

definition reachHumanTurn :: "string \<Rightarrow> agent \<Rightarrow> agent" where
  "reachHumanTurn snapshot s =
     (if waitingForLLM s then s
      else spawn (Reach_llm snapshot)
             (sendToUI (Agent_thinking ''Reading page and checking for a human...'')
                (s\<lparr>waitingForLLM := True\<rparr>)))"

definition negotiationTurn :: "string \<Rightarrow> agent \<Rightarrow> agent" where
  "negotiationTurn snapshot s =
     (if waitingForLLM s then s
      else spawn (Negotiate_llm snapshot)
             (sendToUI (Agent_thinking ''Reading page and analyzing...'')
                (s\<lparr>waitingForLLM := True\<rparr>)))"

definition extractMessagesOnly :: "string \<Rightarrow> agent \<Rightarrow> agent" where
  "extractMessagesOnly snapshot s =
     (if waitingForLLM s then s
      else spawn (Extract_llm snapshot) (s\<lparr>waitingForLLM := True\<rparr>))"

definition processTurn :: "string \<Rightarrow> agent \<Rightarrow> agent" where
  "processTurn snapshot s =
     (if state s = Paused then s
      else if userTyping s then s
      else if state s = Reaching_human then reachHumanTurn snapshot s
      else if state s = Negotiating then negotiationTurn snapshot s
      else if state s = Awaiting_approval then extractMessagesOnly snapshot s
      else s)"

text \<open>
  \<open>continued\<close> says that the caller of \<open>start(url)\<close> is \<open>continue_session\<close>,
  which calls \<open>startPaused("negotiating")\<close> as soon as \<open>start\<close> has returned, that
  is, as soon as \<open>kickoff\<close> has.
\<close>

definition after_start :: "bool \<Rightarrow> agent \<Rightarrow> agent" where
  "after_start continued s = (if continued then startPaused Negotiating s else s)"

text \<open>\<open>kickoff()\<close> up to \<open>await this.mcp.snapshot()\<close>.\<close>

definition kickoff :: "bool \<Rightarrow> agent \<Rightarrow> agent" where
  "kickoff continued s =
     (if waitingForLLM s then after_start continued s
      else spawn (Kickoff_snapshot continued)
             (sendToUI
                (Agent_thinking (''Analyzing chat page '' @ [CHR 0xE2, CHR 0x80, CHR 0x94]
                   @ '' looking for a way to reach a human...''))
                (s\<lparr>waitingForLLM := True\<rparr>)))"

text \<open>\<open>start(url)\<close> up to \<open>await this.mcp.navigate(url)\<close>.\<close>

definition start :: "bool \<Rightarrow> agent \<Rightarrow> agent" where
  "start continued s = spawn (Start_navigate continued) (setState Connecting s)"

text \<open>The \<open>finally\<close> block of \<open>reachHumanTurn\<close> and of \<open>negotiationTurn\<close>.\<close>

definition turn_finally :: "real \<Rightarrow> agent \<Rightarrow> agent" where
  "turn_finally now s = resetInactivityTimer INACTIVITY_MS now (s\<lparr>waitingForLLM := False\<rparr>)"

definition handleInactivity :: "agent \<Rightarrow> agent" where
  "handleInactivity s =
     (if state s = Paused then s
      else if userTyping s then s
      else if waitingForLLM s then s
      else if state s = Reaching_human then spawn Inactivity_snapshot s
      else if state s \<noteq> Negotiating then s
      else spawn Followup_snapshot
             (sendToUI (Agent_thinking ''No response yet, sending follow-up...'') s))"

section \<open>The negotiation agent: continuations\<close>

text \<open>
  Each function below is the code that runs when the awaited operation of a suspended
  task settles, up to the next \<open>await\<close> on the model, on a snapshot or on the
  rendezvous. The calls on the action surface inside \<open>sendChatMessage\<close> and
  \<open>executeAction\<close> are run within the step that reaches them.
\<close>

definition handleCommitmentPoint :: "turn_args \<Rightarrow> string \<Rightarrow> real \<Rightarrow> agent \<Rightarrow> agent" where
  "handleCommitmentPoint turn uuid now s =
     (let lastRepMessage = find (\<lambda>m. msg_sender m = Rep) (rev (conversation s));
          approvalRequest =
            \<lparr>req_id = uuid,
             req_description = orElse (offerDescription turn) ''Service rep made an offer'',
             req_repOffer = (case lastRepMessage of None \<Rightarrow> [] | Some m \<Rightarrow> msg_text m),
             req_agentRecommendation = orElse (recommendation turn) ''reject'',
             req_reasoning = orElse (reasoning turn)
                (''Unable to evaluate '' @ [CHR 0xE2, CHR 0x80, CHR 0x94]
                   @ '' asking user to decide.''),
             req_counterSuggestion = counterSuggestion turn\<rparr>;
          s1 = sendToUI (Approval_required approvalRequest)
                 (setState Awaiting_approval (s\<lparr>pendingApproval := Some approvalRequest\<rparr>));
          s2 = (case stall_start now (stallManager s1, timers s1) of
                  (M, T) \<Rightarrow> s1\<lparr>stallManager := M, timers := T\<rparr>)
      in spawn (Commit_wait (nextPromise s2))
           (s2\<lparr>approvalResolve := Some (nextPromise s2),
               nextPromise := Suc (nextPromise s2)\<rparr>))"

text \<open>
  \<open>negotiationTurn\<close> from the commitment test on: \<open>None\<close> when \<open>executeAction\<close>
  throws.
\<close>

definition negotiation_act :: "turn_args \<Rightarrow> outcome \<Rightarrow> agent \<Rightarrow> agent" where
  "negotiation_act turn w s =
     (if isCommitment turn then handleCommitmentPoint turn (o_uuid w) (real (o_now w)) s
      else (case executeAction (o_send w) (o_now w) turn s of
              None \<Rightarrow> turn_finally (real (o_now w)) (sendToUI (Error_message ''Agent error'') s)
            | Some s' \<Rightarrow> turn_finally (real (o_now w)) s'))"

definition negotiationTurn_result :: "outcome \<Rightarrow> agent \<Rightarrow> agent" where
  "negotiationTurn_result w s =
     (case o_llm w of
        Llm_failed \<Rightarrow> turn_finally (real (o_now w)) (sendToUI (Error_message ''Agent error'') s)
      | Llm_text t \<Rightarrow> turn_finally (real (o_now w)) s
      | Tool_call turn \<Rightarrow>
          if state s = Paused \<or> userTyping s then turn_finally (real (o_now w)) s
          else
            (let dedupedMessages = deduplicateMessages (conversation s) (newMessages turn);
                 s1 = appendNewMessages (o_now w) (newMessages turn) s
             in if dedupedMessages = [] then turn_finally (real (o_now w)) s1
                else (case rev (filter (\<lambda>m. nm_sender m = Rep) dedupedMessages) of
                        lastRepMsg # _ \<Rightarrow>
                          if shouldResearch (nm_text lastRepMsg)
                          then spawn (Negotiate_research turn)
                                 (sendToUI (Agent_thinking ''Researching competitor pricing...'') s1)
                          else negotiation_act turn w s1
                      | [] \<Rightarrow> negotiation_act turn w s1)))"

definition negotiationTurn_researched :: "turn_args \<Rightarrow> outcome \<Rightarrow> agent \<Rightarrow> agent" where
  "negotiationTurn_researched turn w s =
     negotiation_act turn w
       (if truthy (o_findings w)
        then sendToUI (Research_result (serviceProvider s) (orElse (o_findings w) [])) s
        else s)"

text \<open>\<open>handleCommitmentPoint\<close> after the rendezvous has resolved with \<open>approved\<close>.\<close>

definition handleCommitmentPoint_resolved :: "bool \<Rightarrow> real \<Rightarrow> agent \<Rightarrow> agent" where
  "handleCommitmentPoint_resolved approved now s =
     (let s1 = (case stall_stop (stallManager s, timers s) of
                  (M, T) \<Rightarrow> s\<lparr>stallManager := M, timers := T\<rparr>);
          s2 = s1\<lparr>pendingApproval := None, approvalResolve := None\<rparr>
      in if state s2 = Done then turn_finally now s2
         else spawn (Commit_snapshot approved) (setState Negotiating s2))"

definition handleCommitmentPoint_snapshot :: "bool \<Rightarrow> outcome \<Rightarrow> agent \<Rightarrow> agent" where
  "handleCommitmentPoint_snapshot approved w s =
     (case o_snapshot w of
        None \<Rightarrow> turn_finally (real (o_now w)) (sendToUI (Error_message ''Agent error'') s)
      | Some freshSnapshot \<Rightarrow>
          if approved
          then spawn (Commit_reply
                        ''The user has approved this offer. Confirm and accept it politely.'') s
          else spawn (Commit_reply
                        (if truthy (approvalDirective s)
                         then ''The user rejected this offer and says: ''
                                @ [CHR 0x22] @ orElse (approvalDirective s) [] @ [CHR 0x22]
                                @ ''. Follow their direction.''
                         else ''The user rejected this offer. Push back and continue negotiating for a better deal.''))
                 (s\<lparr>approvalDirective := None\<rparr>))"

text \<open>
  The end of a turn that sends a generated message: \<open>generateResponse\<close> has settled,
  then \<open>sendChatMessage\<close>, \<open>addMessage\<close> and the \<open>finally\<close> block.
\<close>

definition send_generated :: "string \<Rightarrow> outcome \<Rightarrow> agent \<Rightarrow> agent" where
  "send_generated errorText w s =
     (case o_chat w of
        None \<Rightarrow> turn_finally (real (o_now w)) (sendToUI (Error_message errorText) s)
      | Some msg \<Rightarrow>
          (case sendChatMessage (o_send w) msg s of
             None \<Rightarrow> turn_finally (real (o_now w)) (sendToUI (Error_message errorText) s)
           | Some s' \<Rightarrow>
               turn_finally (real (o_now w))
                 (addMessage \<lparr>msg_sender = Agent, msg_text = msg, msg_timestamp = o_now w\<rparr> s')))"

definition reachHumanTurn_result :: "outcome \<Rightarrow> agent \<Rightarrow> agent" where
  "reachHumanTurn_result w s =
     (case o_llm w of
        Llm_failed \<Rightarrow>
          turn_finally (real (o_now w)) (sendToUI (Error_message ''Error in reach-human turn'') s)
      | Llm_text t \<Rightarrow> turn_finally (real (o_now w)) s
      | Tool_call turn \<Rightarrow>
          if state s = Paused \<or> userTyping s then turn_finally (real (o_now w)) s
          else
            (let s1 = appendNewMessages (o_now w) (newMessages turn) s
             in if humanDetected turn then
                  (let s2 = setState Negotiating
                              (sendToUI (Agent_thinking
                                 ''Human representative confirmed! Starting negotiation...'') s1);
                       isResumed =
                         (length (filter (\<lambda>m. msg_sender m = Rep) (conversation s2)) > 1)
                   in spawn (Reach_opening
                        (if isResumed
                         then ''A human representative is already in the conversation (this is a resumed session). Apologize briefly for being disconnected and pick up where the conversation left off. State your concern naturally.''
                         else ''A human representative just connected. Introduce yourself as the customer and state your concern. Be conversational and natural '' @ [CHR 0xE2, CHR 0x80, CHR 0x94] @ '' this is the start of the real negotiation.''))
                        s2)
                else (case executeAction (o_send w) (o_now w) turn s1 of
                        None \<Rightarrow>
                          turn_finally (real (o_now w))
                            (sendToUI (Error_message ''Error in reach-human turn'') s1)
                      | Some s2 \<Rightarrow> turn_finally (real (o_now w)) s2)))"

definition extractMessagesOnly_result :: "outcome \<Rightarrow> agent \<Rightarrow> agent" where
  "extractMessagesOnly_result w s =
     (case o_llm w of
        Llm_failed \<Rightarrow> s\<lparr>waitingForLLM := False\<rparr>
      | Llm_text t \<Rightarrow> s\<lparr>waitingForLLM := False\<rparr>
      | Tool_call turn \<Rightarrow>
          if userTyping s then s\<lparr>waitingForLLM := False\<rparr>
          else (appendNewMessages (o_now w) (newMessages turn) s)\<lparr>waitingForLLM := False\<rparr>)"

definition kickoff_snapshot :: "bool \<Rightarrow> outcome \<Rightarrow> agent \<Rightarrow> agent" where
  "kickoff_snapshot continued w s =
     (case o_snapshot w of
        None \<Rightarrow>
          after_start continued
            ((sendToUI (Error_message ''Failed to analyze page'') s)\<lparr>waitingForLLM := False\<rparr>)
      | Some snapshot \<Rightarrow> spawn (Kickoff_llm continued) s)"

definition kickoff_result :: "bool \<Rightarrow> outcome \<Rightarrow> agent \<Rightarrow> agent" where
  "kickoff_result continued w s =
     after_start continued
       ((case o_llm w of
           Llm_failed \<Rightarrow> sendToUI (Error_message ''Failed to analyze page'') s
         | Llm_text t \<Rightarrow>
             sendToUI (Agent_unsure
                         ''I couldn't determine how to start the chat. What should I do?''
                         ''Initial page analysis failed'')
               (addMessage \<lparr>msg_sender = System,
                             msg_text = ''Agent needs help: I couldn't determine how to start the chat. What should I do?'',
                             msg_timestamp = o_now w\<rparr> s)
         | Tool_call act \<Rightarrow>
             (case executeAction (o_send w) (o_now w) act s of
                None \<Rightarrow> sendToUI (Error_message ''Failed to analyze page'') s
              | Some s' \<Rightarrow> resetInactivityTimer INACTIVITY_MS (real (o_now w)) s'))
        \<lparr>waitingForLLM := False\<rparr>)"

text \<open>\<open>start(url)\<close> after navigation and the three-second wait.\<close>

definition start_navigated :: "bool \<Rightarrow> outcome \<Rightarrow> agent \<Rightarrow> agent" where
  "start_navigated continued w s =
     (if o_navigated w
      then kickoff continued ((setState Reaching_human s)\<lparr>listening := True, polling := True\<rparr>)
      else s)"

text \<open>\<open>handleInactivity\<close> in the negotiating phase, after its snapshot and after its reply.\<close>

definition followup_snapshot :: "outcome \<Rightarrow> agent \<Rightarrow> agent" where
  "followup_snapshot w s =
     (case o_snapshot w of
        None \<Rightarrow> resetInactivityTimer INACTIVITY_MS (real (o_now w)) s
      | Some snapshot \<Rightarrow> spawn Followup_llm s)"

definition followup_result :: "outcome \<Rightarrow> agent \<Rightarrow> agent" where
  "followup_result w s =
     (case o_chat w of
        None \<Rightarrow> resetInactivityTimer INACTIVITY_MS (real (o_now w)) s
      | Some followUp \<Rightarrow>
          (case sendChatMessage (o_send w) followUp s of
             None \<Rightarrow> resetInactivityTimer INACTIVITY_MS (real (o_now w)) s
           | Some s' \<Rightarrow>
               resetInactivityTimer INACTIVITY_MS (real (o_now w))
                 (addMessage \<lparr>msg_sender = Agent, msg_text = followUp,
                              msg_timestamp = o_now w\<rparr> s')))"

text \<open>A fresh snapshot followed by \<open>processTurn\<close>: after resume, typing and override.\<close>

definition fresh_snapshot :: "outcome \<Rightarrow> agent \<Rightarrow> agent" where
  "fresh_snapshot w s =
     (case o_snapshot w of None \<Rightarrow> s | Some snapshot \<Rightarrow> processTurn snapshot s)"

definition inactivity_snapshot :: "outcome \<Rightarrow> agent \<Rightarrow> agent" where
  "inactivity_snapshot w s =
     (case o_snapshot w of None \<Rightarrow> s | Some snapshot \<Rightarrow> reachHumanTurn snapshot s)"

definition override_sent :: "string \<Rightarrow> outcome \<Rightarrow> agent \<Rightarrow> agent" where
  "override_sent txt w s =
     (case sendChatMessage (o_send w) txt s of
        None \<Rightarrow> s
      | Some s' \<Rightarrow>
          (let s1 = resetInactivityTimer INACTIVITY_MS (real (o_now w))
                      (addMessage \<lparr>msg_sender = Agent, msg_text = txt,
                                   msg_timestamp = o_now w\<rparr> s')
           in if state s1 = Reaching_human \<or> state s1 = Negotiating
              then (case setTimeout Override_cb 3000 (real (o_now w)) (timers s1) of
                      (h, T) \<Rightarrow> s1\<lparr>timers := T\<rparr>)
              else s1))"

text \<open>The \<open>onSend\<close> callback given to the StallManager, and the rest of \<open>fire()\<close>.\<close>

definition stall_sent :: "string \<Rightarrow> outcome \<Rightarrow> agent \<Rightarrow> agent" where
  "stall_sent txt w s =
     (let (sent, s1) =
            (case sendChatMessage (o_send w) txt s of
               None \<Rightarrow> (False, s)
             | Some s' \<Rightarrow>
                 (True, addMessage \<lparr>msg_sender = Agent, msg_text = txt,
                                    msg_timestamp = o_now w\<rparr> s'))
      in case stall_fire_end sent (o_random w) (real (o_now w)) (stallManager s1, timers s1) of
           (M, T) \<Rightarrow> s1\<lparr>stallManager := M, timers := T\<rparr>)"

definition typing_expired :: "real \<Rightarrow> agent \<Rightarrow> agent" where
  "typing_expired now s =
     spawn Fresh_snapshot
       (resetInactivityTimer INACTIVITY_MS now (s\<lparr>userTyping := False, userTypingTimer := None\<rparr>))"

section \<open>The event loop\<close>

text \<open>
  \<open>settle t w s\<close> continues the task \<open>t\<close>, which has been taken off the list of
  suspended tasks. A turn waiting on the rendezvous continues only once its promise
  has been resolved; until then it stays suspended.
\<close>

fun settle :: "task \<Rightarrow> outcome \<Rightarrow> agent \<Rightarrow> agent" where
  "settle (Start_navigate c) w s = start_navigated c w s"
| "settle (Kickoff_snapshot c) w s = kickoff_snapshot c w s"
| "settle (Kickoff_llm c) w s = kickoff_result c w s"
| "settle (Reach_llm snapshot) w s = reachHumanTurn_result w s"
| "settle (Reach_opening instruction) w s = send_generated ''Error in reach-human turn'' w s"
| "settle (Negotiate_llm snapshot) w s = negotiationTurn_result w s"
| "settle (Negotiate_research turn) w s = negotiationTurn_researched turn w s"
| "settle (Commit_wait p) w s =
     (case map_of (resolved s) p of
        None \<Rightarrow> spawn (Commit_wait p) s
      | Some approved \<Rightarrow> handleCommitmentPoint_resolved approved (real (o_now w)) s)"
| "settle (Commit_snapshot approved) w s = handleCommitmentPoint_snapshot approved w s"
| "settle (Commit_reply instruction) w s = send_generated ''Agent error'' w s"
| "settle (Extract_llm snapshot) w s = extractMessagesOnly_result w s"
| "settle Inactivity_snapshot w s = inactivity_snapshot w s"
| "settle Followup_snapshot w s = followup_snapshot w s"
| "settle Followup_llm w s = followup_result w s"
| "settle Summary_llm w s = snd (stop_summary (o_chat w) (o_now w) s)"
| "settle Fresh_snapshot w s = fresh_snapshot w s"
| "settle (Override_send txt) w s = override_sent txt w s"
| "settle (Stall_send txt) w s = stall_sent txt w s"

text \<open>A pending timer fires: it leaves the table and its callback runs.\<close>

definition timer_fired :: "handle \<Rightarrow> real \<Rightarrow> agent \<Rightarrow> agent" where
  "timer_fired h now s =
     (case take_timer h (timers s) of
        None \<Rightarrow> s
      | Some (e, T) \<Rightarrow>
          (case snd e of
             Debounce_cb snapshot \<Rightarrow> processTurn snapshot (s\<lparr>timers := T\<rparr>)
           | Inactivity_cb \<Rightarrow> handleInactivity (s\<lparr>timers := T\<rparr>)
           | User_typing_cb \<Rightarrow> typing_expired now (s\<lparr>timers := T\<rparr>)
           | Stall_cb \<Rightarrow>
               (case stall_fire (stallManager s) of
                  (msg, M) \<Rightarrow> spawn (Stall_send msg) (s\<lparr>timers := T, stallManager := M\<rparr>))
           | Override_cb \<Rightarrow> spawn Fresh_snapshot (s\<lparr>timers := T\<rparr>)))"

datatype event =
    Cmd_pause
  | Cmd_resume nat
  | Cmd_stop
  | Cmd_approve string
  | Cmd_reject string "string option"
  | Cmd_directive string nat
  | Cmd_override string
  | Cmd_typing nat
  | Changed string nat
  | Timer_fired handle nat
  | Settled nat outcome

fun step :: "event \<Rightarrow> agent \<Rightarrow> agent" where
  "step Cmd_pause s = pause s"
| "step (Cmd_resume now) s = resume (real now) s"
| "step Cmd_stop s = stop s"
| "step (Cmd_approve requestId) s = handleApproval requestId s"
| "step (Cmd_reject requestId directive) s = handleRejection requestId directive s"
| "step (Cmd_directive txt now) s = handleUserDirective txt now s"
| "step (Cmd_override txt) s = handleUserOverride txt s"
| "step (Cmd_typing now) s = handleUserTyping (real now) s"
| "step (Changed snapshot now) s =
     (if listening s then handleSnapshotChanged snapshot (real now) s else s)"
| "step (Timer_fired h now) s = timer_fired h (real now) s"
| "step (Settled i w) s =
     (if i < length (tasks s)
      then settle (tasks s ! i) w (s\<lparr>tasks := take i (tasks s) @ drop (Suc i) (tasks s)\<rparr>)
      else s)"

definition run :: "event list \<Rightarrow> agent \<Rightarrow> agent" where
  "run evs s = foldl (\<lambda>s' e. step e s') s evs"

text \<open>The states a session can be in: a new agent, \<open>start\<close>, then any events.\<close>

definition reachable :: "agent \<Rightarrow> bool" where
  "reachable s =
     (\<exists>provider prior continued evs. s = run evs (start continued (new_agent provider prior)))"

section \<open>Reference definitions for the stated properties\<close>




text \<open>What opening an approval amounts to, for the decision \<open>turn\<close> at time \<open>now\<close>.\<close>

definition approval_opened :: "turn_args \<Rightarrow> real \<Rightarrow> agent \<Rightarrow> bool" where
  "approval_opened turn now s' \<longleftrightarrow>
     state s' = Awaiting_approval
     \<and> (\<exists>req. pendingApproval s' = Some req
              \<and> last (ui s') = Approval_required req
              \<and> req_agentRecommendation req = orElse (recommendation turn) ''reject''
              \<and> req_counterSuggestion req = counterSuggestion turn)
     \<and> (\<exists>h. timer (stallManager s') = Some h
              \<and> (h, now + 20000, Stall_cb) \<in> set (pending (timers s')))
     \<and> count (stallManager s') = 0"

text \<open>
  The tasks that run under the \<open>waitingForLLM\<close> flag (a turn, from its decision call
  to its \<open>finally\<close> block), the tasks that wait for an answer of the model, and
  the task of \<open>start\<close>.
\<close>

fun guarded :: "task \<Rightarrow> bool" where
  "guarded (Kickoff_snapshot c) = True"
| "guarded (Kickoff_llm c) = True"
| "guarded (Reach_llm snapshot) = True"
| "guarded (Reach_opening instruction) = True"
| "guarded (Negotiate_llm snapshot) = True"
| "guarded (Negotiate_research turn) = True"
| "guarded (Commit_wait p) = True"
| "guarded (Commit_snapshot approved) = True"
| "guarded (Commit_reply instruction) = True"
| "guarded (Extract_llm snapshot) = True"
| "guarded (Start_navigate c) = False"
| "guarded Inactivity_snapshot = False"
| "guarded Followup_snapshot = False"
| "guarded Followup_llm = False"
| "guarded Summary_llm = False"
| "guarded Fresh_snapshot = False"
| "guarded (Override_send txt) = False"
| "guarded (Stall_send txt) = False"

fun llm_call :: "task \<Rightarrow> bool" where
  "llm_call (Kickoff_llm c) = True"
| "llm_call (Reach_llm snapshot) = True"
| "llm_call (Reach_opening instruction) = True"
| "llm_call (Negotiate_llm snapshot) = True"
| "llm_call (Commit_reply instruction) = True"
| "llm_call (Extract_llm snapshot) = True"
| "llm_call Followup_llm = True"
| "llm_call Summary_llm = True"
| "llm_call (Start_navigate c) = False"
| "llm_call (Kickoff_snapshot c) = False"
| "llm_call (Negotiate_research turn) = False"
| "llm_call (Commit_wait p) = False"
| "llm_call (Commit_snapshot approved) = False"
| "llm_call Inactivity_snapshot = False"
| "llm_call Followup_snapshot = False"
| "llm_call Fresh_snapshot = False"
| "llm_call (Override_send txt) = False"
| "llm_call (Stall_send txt) = False"

fun is_start :: "task \<Rightarrow> bool" where
  "is_start (Start_navigate c) = True"
| "is_start t = False"

text \<open>The fields the invariant below reads.\<close>

definition core ::
  "agent \<Rightarrow> negotiation_state \<times> negotiation_state option \<times> approval_request option
           \<times> nat option \<times> bool \<times> task list" where
  "core s =
     (state s, pausedFromState s, pendingApproval s, approvalResolve s, waitingForLLM s,
      tasks s)"

text \<open>
  The invariant of the event loop: at most one guarded task, and the flag is set
  exactly when there is one; the resolver and the pending request are set together,
  exactly in the approval phase or when paused from it, and the turn waiting on that
  promise is suspended; while \<open>start\<close> is still navigating, no turn has begun.
\<close>

definition INV :: "agent \<Rightarrow> bool" where
  "INV s \<longleftrightarrow>
     length (filter guarded (tasks s)) \<le> 1
     \<and> (waitingForLLM s \<longleftrightarrow> filter guarded (tasks s) \<noteq> [])
     \<and> (approvalResolve s \<noteq> None \<longleftrightarrow> pendingApproval s \<noteq> None)
     \<and> (pendingApproval s \<noteq> None \<longleftrightarrow>
          state s = Awaiting_approval
          \<or> (state s = Paused \<and> pausedFromState s = Some Awaiting_approval))
     \<and> (\<forall>p. approvalResolve s = Some p \<longrightarrow> Commit_wait p \<in> set (tasks s))
     \<and> (filter is_start (tasks s) \<noteq> [] \<longrightarrow>
          \<not> waitingForLLM s \<and> pendingApproval s = None
          \<and> (state s = Connecting \<or> state s = Paused \<or> state s = Done)
          \<and> (pausedFromState s = None \<or> pausedFromState s = Some Connecting)
          \<and> Inactivity_snapshot \<notin> set (tasks s))
     \<and> length (filter is_start (tasks s)) \<le> 1"

section \<open>Concrete sessions\<close>

definition quiet :: outcome where
  "quiet = \<lparr>o_now = 0, o_snapshot = Some ''page'', o_llm = Llm_failed, o_chat = None,
            o_send = No_input, o_findings = None, o_uuid = ''u1'', o_random = 0,
            o_navigated = True\<rparr>"

definition no_args :: turn_args where
  "no_args = \<lparr>newMessages = [], humanDetected = False, isCommitment = False,
              offerDescription = None, recommendation = None, reasoning = None,
              counterSuggestion = None, action = ''wait'', response = None, ref = None,
              typed_text = None, reason = None\<rparr>"

definition fresh :: agent where
  "fresh = start False (new_agent ''ISP'' [])"

text \<open>
  Navigation succeeds, \<open>kickoff\<close> gets a snapshot and fails on the model; the page
  changes, the debounce timer fires, the reach-human turn detects a human and the
  opening message is sent.
\<close>

definition session_to_negotiating :: "event list" where
  "session_to_negotiating =
     [Settled 0 quiet,
      Settled 0 (quiet\<lparr>o_now := 3000\<rparr>),
      Settled 0 (quiet\<lparr>o_now := 4000\<rparr>),
      Changed ''page1'' 5000,
      Timer_fired 0 7000,
      Settled 0 (quiet\<lparr>o_now := 9000,
         o_llm := Tool_call (no_args\<lparr>newMessages :=
                                        [\<lparr>nm_sender = Rep, nm_text = ''Hi, this is Sam''\<rparr>],
                                      humanDetected := True\<rparr>)\<rparr>),
      Settled 0 (quiet\<lparr>o_now := 11000, o_chat := Some ''Hello Sam'',
                       o_send := Input ''e5''\<rparr>)]"

text \<open>Then the page changes again and the negotiation turn reports a commitment.\<close>

definition offer :: turn_args where
  "offer = no_args\<lparr>newMessages := [\<lparr>nm_sender = Rep, nm_text = ''We can offer 40''\<rparr>],
                   isCommitment := True, recommendation := Some ''counter'',
                   counterSuggestion := Some ''Ask for 35''\<rparr>"

definition session_to_approval :: "event list" where
  "session_to_approval =
     session_to_negotiating @
     [Changed ''page2'' 20000,
      Timer_fired 3 22000,
      Settled 0 (quiet\<lparr>o_now := 25000, o_llm := Tool_call offer\<rparr>)]"

section \<open>Auxiliary predicates of the invariant proof\<close>

text \<open>A guarded task other than the commitment wait has been taken off the list.\<close>

definition H :: "agent \<Rightarrow> bool" where
  "H s \<longleftrightarrow>
     filter guarded (tasks s) = [] \<and> filter is_start (tasks s) = []
     \<and> pendingApproval s = None \<and> approvalResolve s = None
     \<and> state s \<noteq> Awaiting_approval
     \<and> (state s = Paused \<longrightarrow> pausedFromState s \<noteq> Some Awaiting_approval)"

text \<open>The commitment wait \<open>Commit_wait p\<close> has been taken off the list.\<close>

definition Hc :: "nat \<Rightarrow> agent \<Rightarrow> bool" where
  "Hc p s \<longleftrightarrow>
     filter guarded (tasks s) = [] \<and> filter is_start (tasks s) = []
     \<and> waitingForLLM s
     \<and> (approvalResolve s \<noteq> None \<longleftrightarrow> pendingApproval s \<noteq> None)
     \<and> (pendingApproval s \<noteq> None \<longleftrightarrow>
          state s = Awaiting_approval
          \<or> (state s = Paused \<and> pausedFromState s = Some Awaiting_approval))
     \<and> (\<forall>q. approvalResolve s = Some q \<longrightarrow> q = p)"

text \<open>The fields of an agent that the concrete sessions are observed through.\<close>

definition glance ::
  "agent \<Rightarrow> negotiation_state \<times> negotiation_state option \<times> bool \<times> bool \<times> task list
           \<times> timeout list" where
  "glance s =
     (state s, pausedFromState s, pendingApproval s \<noteq> None, waitingForLLM s, tasks s,
      pending (timers s))"

fun is_commit_wait :: "task \<Rightarrow> bool" where
  "is_commit_wait (Commit_wait p) = True"
| "is_commit_wait t = False"

text \<open>
  \<open>kickoff\<close> ends with a text answer, which leaves a system message in the log; the
  page changes and the reach-human turn has its decision call in flight.
\<close>

definition session_to_reach_call :: "event list" where
  "session_to_reach_call =
     [Settled 0 quiet,
      Settled 0 (quiet\<lparr>o_now := 3000\<rparr>),
      Settled 0 (quiet\<lparr>o_now := 4000, o_llm := Llm_text ''?''\<rparr>),
      Changed ''page1'' 5000,
      Timer_fired 0 7000]"

text \<open>The user types, then pauses.\<close>

definition session_typing_pause :: "event list" where
  "session_typing_pause = [Settled 0 quiet, Cmd_typing 1000, Cmd_pause]"

text \<open>The timer handles the agent holds in its fields and in its StallManager.\<close>

definition held_timers :: "agent \<Rightarrow> handle set" where
  "held_timers s =
     set_option (debounceTimer s) \<union> set_option (inactivityTimer s)
     \<union> set_option (userTypingTimer s) \<union> set_option (timer (stallManager s))"

text \<open>
  The reach-human turn is waiting for its decision; the user sends a message of their
  own, which arms the three-second timer of \<open>handleUserOverride\<close>, and then stops
  the agent.
\<close>

definition session_stop_in_turn :: "event list" where
  "session_stop_in_turn =
     session_to_reach_call @
     [Cmd_override ''hi'',
      Settled 1 (quiet\<lparr>o_now := 8000, o_send := Input ''e1''\<rparr>),
      Cmd_stop]"

text \<open>
  What happens after that \<open>stop()\<close>: the decision of the turn that was in flight
  arrives and reports a human, the opening message is generated and sent, the timer
  of the override fires, and its snapshot is fetched.
\<close>

definition human_found :: turn_args where
  "human_found = no_args\<lparr>newMessages := [\<lparr>nm_sender = Rep, nm_text = ''Hi, this is Sam''\<rparr>],
                         humanDetected := True\<rparr>"

definition after_stop :: "event list" where
  "after_stop =
     [Settled 0 (quiet\<lparr>o_now := 9000, o_llm := Tool_call human_found\<rparr>),
      Settled 1 (quiet\<lparr>o_now := 10000, o_chat := Some ''Hello Sam'', o_send := Input ''e5''\<rparr>),
      Timer_fired 3 11000,
      Settled 1 (quiet\<lparr>o_now := 11500, o_snapshot := Some ''page9''\<rparr>)]"

text \<open>
  \<open>stop()\<close> arrives while the negotiation turn waits for its decision, which then
  reports a commitment.
\<close>

definition session_offer_after_stop :: "event list" where
  "session_offer_after_stop =
     session_to_negotiating @
     [Changed ''page2'' 20000,
      Timer_fired 3 22000,
      Cmd_stop,
      Settled 0 (quiet\<lparr>o_now := 25000, o_llm := Tool_call offer\<rparr>)]"

text \<open>Pause and resume in the negotiating phase; the snapshot of \<open>resume()\<close> fails.\<close>

definition session_resume_no_snapshot :: "event list" where
  "session_resume_no_snapshot =
     session_to_negotiating @
     [Cmd_pause, Cmd_resume 30000, Settled 0 (quiet\<lparr>o_now := 31000, o_snapshot := None\<rparr>)]"

text \<open>Three change events, each less than 2000 ms after the one before.\<close>

definition burst :: "(nat \<times> string) list" where
  "burst = [(8000, ''a''), (8500, ''b''), (9900, ''c'')]"

text \<open>A negotiation turn whose decision reports a commitment and no message.\<close>

definition bare_offer :: turn_args where
  "bare_offer = no_args\<lparr>isCommitment := True, recommendation := Some ''counter'',
                        counterSuggestion := Some ''Ask for 35''\<rparr>"

definition session_bare_offer :: "event list" where
  "session_bare_offer =
     session_to_negotiating @
     [Changed ''page2'' 20000,
      Timer_fired 3 22000,
      Settled 0 (quiet\<lparr>o_now := 25000, o_llm := Tool_call bare_offer\<rparr>)]"

section \<open>Pause: what ends it\<close>

text \<open>
  The suspended tasks whose continuation sets the phase, or the remembered phase,
  without testing for \<open>paused\<close>: \<open>start\<close> after navigation, \<open>kickoff\<close> of a
  continued session (whose caller goes on with \<open>startPaused\<close>), the negotiation turn
  after its research, and the turn waiting on the rendezvous.
\<close>

fun overrides_pause :: "task \<Rightarrow> bool" where
  "overrides_pause (Start_navigate c) = True"
| "overrides_pause (Kickoff_snapshot c) = c"
| "overrides_pause (Kickoff_llm c) = c"
| "overrides_pause (Negotiate_research turn) = True"
| "overrides_pause (Commit_wait p) = True"
| "overrides_pause (Reach_llm snapshot) = False"
| "overrides_pause (Reach_opening instruction) = False"
| "overrides_pause (Negotiate_llm snapshot) = False"
| "overrides_pause (Commit_snapshot approved) = False"
| "overrides_pause (Commit_reply instruction) = False"
| "overrides_pause (Extract_llm snapshot) = False"
| "overrides_pause Inactivity_snapshot = False"
| "overrides_pause Followup_snapshot = False"
| "overrides_pause Followup_llm = False"
| "overrides_pause Summary_llm = False"
| "overrides_pause Fresh_snapshot = False"
| "overrides_pause (Override_send txt) = False"
| "overrides_pause (Stall_send txt) = False"

text \<open>The agent is paused from phase \<open>p\<close>, and no such task is suspended.\<close>

definition frozen :: "negotiation_state \<Rightarrow> agent \<Rightarrow> bool" where
  "frozen p s \<longleftrightarrow>
     state s = Paused \<and> pausedFromState s = Some p
     \<and> filter overrides_pause (tasks s) = []"


section \<open>The event loop in time: change events and the debounce timer\<close>

fun debounce_snapshot :: "callback \<Rightarrow> string option" where
  "debounce_snapshot (Debounce_cb snapshot) = Some snapshot"
| "debounce_snapshot Inactivity_cb = None"
| "debounce_snapshot User_typing_cb = None"
| "debounce_snapshot Stall_cb = None"
| "debounce_snapshot Override_cb = None"

text \<open>The pending debounce timers that are due at time \<open>t\<close>.\<close>

definition due_debounce :: "real \<Rightarrow> timer_table \<Rightarrow> timeout list" where
  "due_debounce t T =
     filter (\<lambda>e. fst (snd e) \<le> t \<and> debounce_snapshot (snd (snd e)) \<noteq> None) (pending T)"

text \<open>
  The event loop runs the given timers at time \<open>now\<close>; the result lists the
  snapshots that the debounce callbacks among them passed to \<open>processTurn\<close>.
\<close>

fun fire_timers :: "timeout list \<Rightarrow> nat \<Rightarrow> agent \<Rightarrow> string list \<times> agent" where
  "fire_timers [] now s = ([], s)"
| "fire_timers (e # es) now s =
     (case fire_timers es now (step (Timer_fired (fst e) now) s) of
        (d, s') \<Rightarrow>
          ((case debounce_snapshot (snd (snd e)) of None \<Rightarrow> d | Some snapshot \<Rightarrow> snapshot # d),
           s'))"

definition run_debounce :: "nat \<Rightarrow> agent \<Rightarrow> string list \<times> agent" where
  "run_debounce now s = fire_timers (due_debounce (real now) (timers s)) now s"

text \<open>
  The observer's change events, each with the time at which it is emitted: before an
  event is delivered, the debounce timers due by then have fired.
\<close>

fun deliver_changes :: "(nat \<times> string) list \<Rightarrow> agent \<Rightarrow> string list \<times> agent" where
  "deliver_changes [] s = ([], s)"
| "deliver_changes ((t, snapshot) # evs) s =
     (case run_debounce t s of
        (d1, s1) \<Rightarrow>
          (case deliver_changes evs (step (Changed snapshot t) s1) of
             (d2, s2) \<Rightarrow> (d1 @ d2, s2)))"

text \<open>A burst: each event comes less than 2000 ms after the one before it.\<close>

fun within_window :: "(nat \<times> string) list \<Rightarrow> bool" where
  "within_window [] = True"
| "within_window [e] = True"
| "within_window (e # e' # evs) =
     (fst e \<le> fst e' \<and> fst e' < fst e + 2000 \<and> within_window (e' # evs))"

text \<open>
  Handles are what \<open>setTimeout\<close> hands out: the pending timers have distinct
  handles, and no handle in the table or in a field has yet to be issued.
\<close>

definition timers_fresh :: "agent \<Rightarrow> bool" where
  "timers_fresh s \<longleftrightarrow>
     distinct (map fst (pending (timers s)))
     \<and> (\<forall>e \<in> set (pending (timers s)). fst e < nextHandle (timers s))
     \<and> (\<forall>h \<in> held_timers s. h < nextHandle (timers s))"

text \<open>
  After a change event at time \<open>t\<close> with \<open>snapshot\<close>: the agent can dispatch, and
  the one pending debounce timer is the one it holds, due at \<open>t + 2000\<close>.
\<close>

definition debounced :: "agent \<Rightarrow> nat \<Rightarrow> string \<Rightarrow> bool" where
  "debounced s t snapshot \<longleftrightarrow>
     listening s \<and> state s \<noteq> Paused \<and> state s \<noteq> Idle \<and> state s \<noteq> Done
     \<and> \<not> userTyping s \<and> timers_fresh s
     \<and> (\<exists>h. debounceTimer s = Some h
            \<and> filter (\<lambda>e. debounce_snapshot (snd (snd e)) \<noteq> None) (pending (timers s))
                = [(h, real t + 2000, Debounce_cb snapshot)])"

text \<open>The timer fields of an agent, for the concrete sessions.\<close>

definition glance_timers ::
  "agent \<Rightarrow> bool \<times> bool \<times> handle option \<times> handle option \<times> handle option
           \<times> handle option \<times> handle" where
  "glance_timers s =
     (listening s, userTyping s, debounceTimer s, inactivityTimer s, userTypingTimer s,
      timer (stallManager s), nextHandle (timers s))"

section \<open>Verified properties\<close>

subsection \<open>Stall scheduler and deduplication\<close>
























text \<open>
  C10. \<open>handleApproval\<close> and \<open>handleRejection\<close> with a request id that is not the
  id of the pending approval request (also when none is pending) return the agent
  unchanged: no promise is resolved, and the phase, the pending request and the log
  stay as they are.
\<close>

theorem approval_wrong_id_is_noop:
  assumes "map_option req_id (pendingApproval s) \<noteq> Some requestId"
  shows "handleApproval requestId s = s \<and> handleRejection requestId directive s = s"
  using assms
  by (auto simp: handleApproval_def handleRejection_def split: option.splits)

theorem approval_wrong_id_is_noop_witness:
  "map_option req_id (pendingApproval
       ((new_agent ''ISP'' [])\<lparr>pendingApproval :=
           Some \<lparr>req_id = ''a'', req_description = ''d'', req_repOffer = ''o'',
                 req_agentRecommendation = ''reject'', req_reasoning = ''r'',
                 req_counterSuggestion = None\<rparr>, approvalResolve := Some 0\<rparr>)) \<noteq> Some ''b''
   \<and> handleApproval ''b''
       ((new_agent ''ISP'' [])\<lparr>pendingApproval :=
           Some \<lparr>req_id = ''a'', req_description = ''d'', req_repOffer = ''o'',
                 req_agentRecommendation = ''reject'', req_reasoning = ''r'',
                 req_counterSuggestion = None\<rparr>, approvalResolve := Some 0\<rparr>)
     = (new_agent ''ISP'' [])\<lparr>pendingApproval :=
           Some \<lparr>req_id = ''a'', req_description = ''d'', req_repOffer = ''o'',
                 req_agentRecommendation = ''reject'', req_reasoning = ''r'',
                 req_counterSuggestion = None\<rparr>, approvalResolve := Some 0\<rparr>"
  using approval_wrong_id_is_noop
    [of "(new_agent ''ISP'' [])\<lparr>pendingApproval :=
           Some \<lparr>req_id = ''a'', req_description = ''d'', req_repOffer = ''o'',
                 req_agentRecommendation = ''reject'', req_reasoning = ''r'',
                 req_counterSuggestion = None\<rparr>, approvalResolve := Some 0\<rparr>" "''b''" None]
  by simp

subsection \<open>The invariant of the event loop\<close>

lemma core_eq_iff:
  "core a = core b \<longleftrightarrow>
     state a = state b \<and> pausedFromState a = pausedFromState b
     \<and> pendingApproval a = pendingApproval b \<and> approvalResolve a = approvalResolve b
     \<and> waitingForLLM a = waitingForLLM b \<and> tasks a = tasks b"
  by (simp add: core_def)

lemma INV_core: "core s' = core s \<Longrightarrow> INV s' = INV s"
  by (simp add: core_eq_iff INV_def)

lemma core_sendToUI: "core (sendToUI m s) = core s"
  by (simp add: core_def sendToUI_def)

lemma core_addMessage: "core (addMessage m s) = core s"
  by (simp add: core_def addMessage_def sendToUI_def)

lemma core_resetInactivityTimer: "core (resetInactivityTimer ms now s) = core s"
  by (simp add: core_def resetInactivityTimer_def setTimeout_def)

lemma core_clearDebounce: "core (clearDebounce s) = core s"
  by (simp add: core_def clearDebounce_def)

lemma core_clearInactivity: "core (clearInactivity s) = core s"
  by (simp add: core_def clearInactivity_def)

lemma core_clearUserTypingDelay: "core (clearUserTypingDelay s) = core s"
  by (simp add: core_def clearUserTypingDelay_def)

lemma core_foldl_addMessage: "core (foldl (\<lambda>s' m. addMessage m s') s ms) = core s"
  by (induction ms arbitrary: s) (simp_all add: core_addMessage)

lemma core_appendNewMessages: "core (appendNewMessages b ms s) = core s"
  by (simp add: appendNewMessages_def core_foldl_addMessage)

lemma core_sendChatMessage: "sendChatMessage env t s = Some s' \<Longrightarrow> core s' = core s"
  by (cases env) (auto simp: core_def)

lemma core_executeAction: "executeAction env now a s = Some s' \<Longrightarrow> core s' = core s"
  by (auto simp: executeAction_def core_def addMessage_def sendToUI_def
      split: if_splits option.splits dest!: core_sendChatMessage)

lemma core_handleUserTyping: "core (handleUserTyping now s) = core s"
  by (simp add: handleUserTyping_def Let_def setTimeout_def core_def clearInactivity_def
      clearDebounce_def split: prod.splits)

lemma core_handleSnapshotChanged: "core (handleSnapshotChanged snap now s) = core s"
  by (simp add: handleSnapshotChanged_def Let_def setTimeout_def core_def
      resetInactivityTimer_def split: prod.splits)

lemmas helper_fields [simp] =
  core_sendToUI [unfolded core_eq_iff]
  core_addMessage [unfolded core_eq_iff]
  core_resetInactivityTimer [unfolded core_eq_iff]
  core_clearDebounce [unfolded core_eq_iff]
  core_clearInactivity [unfolded core_eq_iff]
  core_clearUserTypingDelay [unfolded core_eq_iff]
  core_appendNewMessages [unfolded core_eq_iff]
  core_handleUserTyping [unfolded core_eq_iff]
  core_handleSnapshotChanged [unfolded core_eq_iff]

lemma setState_fields [simp]:
  "state (setState st s) = st"
  "pausedFromState (setState st s) = pausedFromState s"
  "pendingApproval (setState st s) = pendingApproval s"
  "approvalResolve (setState st s) = approvalResolve s"
  "waitingForLLM (setState st s) = waitingForLLM s"
  "tasks (setState st s) = tasks s"
  by (simp_all add: setState_def sendToUI_def)

lemma spawn_fields [simp]:
  "state (spawn t s) = state s"
  "pausedFromState (spawn t s) = pausedFromState s"
  "pendingApproval (spawn t s) = pendingApproval s"
  "approvalResolve (spawn t s) = approvalResolve s"
  "waitingForLLM (spawn t s) = waitingForLLM s"
  "tasks (spawn t s) = tasks s @ [t]"
  by (simp_all add: spawn_def)


lemma INV_I:
  assumes "length (filter guarded (tasks s)) \<le> 1"
    and "waitingForLLM s \<longleftrightarrow> filter guarded (tasks s) \<noteq> []"
    and "approvalResolve s \<noteq> None \<longleftrightarrow> pendingApproval s \<noteq> None"
    and "pendingApproval s \<noteq> None \<longleftrightarrow>
          state s = Awaiting_approval
          \<or> (state s = Paused \<and> pausedFromState s = Some Awaiting_approval)"
    and "\<And>p. approvalResolve s = Some p \<Longrightarrow> Commit_wait p \<in> set (tasks s)"
    and "filter is_start (tasks s) \<noteq> [] \<Longrightarrow>
          \<not> waitingForLLM s \<and> pendingApproval s = None
          \<and> (state s = Connecting \<or> state s = Paused \<or> state s = Done)
          \<and> (pausedFromState s = None \<or> pausedFromState s = Some Connecting)
          \<and> Inactivity_snapshot \<notin> set (tasks s)"
    and "length (filter is_start (tasks s)) \<le> 1"
  shows "INV s"
  using assms unfolding INV_def by blast

lemma INV_D:
  assumes "INV s"
  shows "length (filter guarded (tasks s)) \<le> 1"
    and "waitingForLLM s \<longleftrightarrow> filter guarded (tasks s) \<noteq> []"
    and "approvalResolve s \<noteq> None \<longleftrightarrow> pendingApproval s \<noteq> None"
    and "pendingApproval s \<noteq> None \<longleftrightarrow>
          state s = Awaiting_approval
          \<or> (state s = Paused \<and> pausedFromState s = Some Awaiting_approval)"
    and "\<And>p. approvalResolve s = Some p \<Longrightarrow> Commit_wait p \<in> set (tasks s)"
    and "filter is_start (tasks s) \<noteq> [] \<Longrightarrow>
          \<not> waitingForLLM s \<and> pendingApproval s = None
          \<and> (state s = Connecting \<or> state s = Paused \<or> state s = Done)
          \<and> (pausedFromState s = None \<or> pausedFromState s = Some Connecting)
          \<and> Inactivity_snapshot \<notin> set (tasks s)"
    and "length (filter is_start (tasks s)) \<le> 1"
  using assms unfolding INV_def by blast+

lemma INV_spawn_plain:
  assumes "INV s" "\<not> guarded t" "\<not> is_start t" "t \<noteq> Inactivity_snapshot"
  shows "INV (spawn t s)"
proof (rule INV_I)
  note d = INV_D [OF assms(1)]
  show "length (filter guarded (tasks (spawn t s))) \<le> 1" using d(1) assms by simp
  show "waitingForLLM (spawn t s) \<longleftrightarrow> filter guarded (tasks (spawn t s)) \<noteq> []"
    using d(2) assms by simp
  show "approvalResolve (spawn t s) \<noteq> None \<longleftrightarrow> pendingApproval (spawn t s) \<noteq> None"
    using d(3) by simp
  show "pendingApproval (spawn t s) \<noteq> None \<longleftrightarrow>
          state (spawn t s) = Awaiting_approval
          \<or> (state (spawn t s) = Paused \<and> pausedFromState (spawn t s) = Some Awaiting_approval)"
    using d(4) by simp
  show "\<And>p. approvalResolve (spawn t s) = Some p \<Longrightarrow> Commit_wait p \<in> set (tasks (spawn t s))"
    using d(5) by simp
  show "filter is_start (tasks (spawn t s)) \<noteq> [] \<Longrightarrow>
          \<not> waitingForLLM (spawn t s) \<and> pendingApproval (spawn t s) = None
          \<and> (state (spawn t s) = Connecting \<or> state (spawn t s) = Paused \<or> state (spawn t s) = Done)
          \<and> (pausedFromState (spawn t s) = None \<or> pausedFromState (spawn t s) = Some Connecting)
          \<and> Inactivity_snapshot \<notin> set (tasks (spawn t s))"
    using d(6) assms by simp
  show "length (filter is_start (tasks (spawn t s))) \<le> 1" using d(7) assms by simp
qed


lemma core_upd_other:
  "core (s\<lparr>timers := T\<rparr>) = core s"
  "core (s\<lparr>stallManager := M\<rparr>) = core s"
  "core (s\<lparr>userTyping := b\<rparr>) = core s"
  "core (s\<lparr>userTypingTimer := a\<rparr>) = core s"
  "core (s\<lparr>resolved := r\<rparr>) = core s"
  "core (s\<lparr>approvalDirective := d\<rparr>) = core s"
  "core (s\<lparr>timers := T, stallManager := M\<rparr>) = core s"
  "core (s\<lparr>userTyping := b, userTypingTimer := a\<rparr>) = core s"
  by (simp_all add: core_def)

lemma INV_init: "INV (start c (new_agent p prior))"
  by (simp add: INV_def start_def) (simp add: new_agent_def)

lemma INV_pause: "INV s \<Longrightarrow> INV (pause s)"
  by (auto simp: INV_def pause_def)

lemma INV_resume: "INV s \<Longrightarrow> INV (resume now s)"
  by (auto simp: INV_def resume_def split: option.splits)

lemma stop_now_fields:
  "state (stop_now s) = Done" "pausedFromState (stop_now s) = None"
  "pendingApproval (stop_now s) = (if approvalResolve s = None then pendingApproval s else None)"
  "approvalResolve (stop_now s) = None" "waitingForLLM (stop_now s) = waitingForLLM s"
  "tasks (stop_now s) = tasks s"
  by (auto simp: stop_now_def Let_def stall_stop_def split: option.splits prod.splits)

lemma INV_stop_now: "INV s \<Longrightarrow> INV (stop_now s)"
  by (auto simp: INV_def stop_now_fields)

lemma INV_stop: "INV s \<Longrightarrow> INV (stop s)"
  by (simp add: stop_def Let_def INV_stop_now INV_spawn_plain)

lemma core_handleApproval: "core (handleApproval r s) = core s"
  by (simp add: handleApproval_def core_def split: option.splits)

lemma core_handleRejection: "core (handleRejection r d s) = core s"
  by (simp add: handleRejection_def core_def split: option.splits)

lemma core_handleUserDirective: "core (handleUserDirective t now s) = core s"
  by (simp add: handleUserDirective_def core_eq_iff)

lemma INV_handleUserOverride: "INV s \<Longrightarrow> INV (handleUserOverride t s)"
  unfolding handleUserOverride_def
  by (rule INV_spawn_plain) (simp_all add: INV_core [OF core_clearUserTypingDelay])

text \<open>A turn begins: the flag is clear, \<open>start\<close> has finished navigating.\<close>

lemma INV_begin:
  assumes "INV s" "\<not> waitingForLLM s" "filter is_start (tasks s) = []"
    "guarded g" "\<And>p. g \<noteq> Commit_wait p"
  shows "INV (spawn g (s\<lparr>waitingForLLM := True\<rparr>))"
proof -
  note d = INV_D [OF assms(1)]
  from d(2) assms(2) have g: "filter guarded (tasks s) = []" by simp
  have ns: "\<not> is_start g" using assms(4) by (cases g) auto
  show ?thesis
    using d(3,4,5) g assms(3,4) ns by (simp add: INV_def)
qed

lemma INV_spawn_sendToUI: "INV (spawn t (sendToUI m s)) = INV (spawn t s)"
  by (rule INV_core) (simp add: core_eq_iff)

lemma INV_reachHumanTurn:
  "INV s \<Longrightarrow> filter is_start (tasks s) = [] \<Longrightarrow> INV (reachHumanTurn snap s)"
  by (simp add: reachHumanTurn_def INV_spawn_sendToUI INV_begin)

lemma INV_negotiationTurn:
  "INV s \<Longrightarrow> filter is_start (tasks s) = [] \<Longrightarrow> INV (negotiationTurn snap s)"
  by (simp add: negotiationTurn_def INV_spawn_sendToUI INV_begin)

lemma INV_extractMessagesOnly:
  "INV s \<Longrightarrow> filter is_start (tasks s) = [] \<Longrightarrow> INV (extractMessagesOnly snap s)"
  by (simp add: extractMessagesOnly_def INV_begin)

lemma started_in_turn_phase:
  assumes "INV s"
    and "state s = Reaching_human \<or> state s = Negotiating \<or> state s = Awaiting_approval"
  shows "filter is_start (tasks s) = []"
proof (rule ccontr)
  assume "filter is_start (tasks s) \<noteq> []"
  from INV_D(6) [OF assms(1) this] assms(2) show False by auto
qed

lemma INV_processTurn: "INV s \<Longrightarrow> INV (processTurn snap s)"
  by (simp add: processTurn_def INV_reachHumanTurn INV_negotiationTurn
      INV_extractMessagesOnly started_in_turn_phase)

lemma INV_handleInactivity: "INV s \<Longrightarrow> INV (handleInactivity s)"
proof -
  assume inv: "INV s"
  note d = INV_D [OF inv]
  have a: "state s = Reaching_human \<Longrightarrow> INV (spawn Inactivity_snapshot s)"
    using d started_in_turn_phase [OF inv] by (simp add: INV_def)
  have b: "\<And>m. INV (spawn Followup_snapshot (sendToUI m s))"
    unfolding INV_spawn_sendToUI using inv by (rule INV_spawn_plain) simp_all
  show ?thesis using inv a b by (simp add: handleInactivity_def)
qed

lemma INV_typing_expired: "INV s \<Longrightarrow> INV (typing_expired now s)"
proof -
  assume inv: "INV s"
  have c: "core (resetInactivityTimer INACTIVITY_MS now
                   (s\<lparr>userTyping := False, userTypingTimer := None\<rparr>)) = core s"
    by (simp add: core_eq_iff)
  show ?thesis
    unfolding typing_expired_def
    by (rule INV_spawn_plain) (simp_all add: INV_core [OF c] inv)
qed

lemma INV_timer_fired: "INV s \<Longrightarrow> INV (timer_fired h now s)"
proof -
  assume inv: "INV s"
  have t: "\<And>T. INV (s\<lparr>timers := T\<rparr>)"
    using inv by (simp add: INV_core [OF core_upd_other(1)])
  have st: "\<And>T M msg. INV (spawn (Stall_send msg) (s\<lparr>timers := T, stallManager := M\<rparr>))"
    using inv by (intro INV_spawn_plain) (simp_all add: INV_core [OF core_upd_other(7)])
  have ov: "\<And>T. INV (spawn Fresh_snapshot (s\<lparr>timers := T\<rparr>))"
    using t by (intro INV_spawn_plain) simp_all
  show ?thesis
    unfolding timer_fired_def using inv
    by (auto split: option.splits callback.splits prod.splits
        intro!: INV_processTurn INV_handleInactivity INV_typing_expired t st ov)
qed

lemma H_core: "core s' = core s \<Longrightarrow> H s' = H s"
  by (simp add: core_eq_iff H_def)

lemma H_unflag: "H s \<Longrightarrow> INV (s\<lparr>waitingForLLM := False\<rparr>)"
  by (simp add: H_def INV_def)

lemma H_turn_finally: "H s \<Longrightarrow> INV (turn_finally now s)"
proof -
  have c: "core (turn_finally now s) = core (s\<lparr>waitingForLLM := False\<rparr>)"
    by (simp add: turn_finally_def core_eq_iff)
  show "H s \<Longrightarrow> INV (turn_finally now s)"
    by (simp add: INV_core [OF c] H_unflag)
qed

lemma H_spawn:
  "H s \<Longrightarrow> waitingForLLM s \<Longrightarrow> guarded g \<Longrightarrow> (\<And>p. g \<noteq> Commit_wait p) \<Longrightarrow> INV (spawn g s)"
  by (cases g) (simp_all add: H_def INV_def)

lemma H_setState: "H s \<Longrightarrow> st \<noteq> Awaiting_approval \<Longrightarrow> st \<noteq> Paused \<Longrightarrow> H (setState st s)"
  by (simp add: H_def)

lemma H_commit: "H s \<Longrightarrow> waitingForLLM s \<Longrightarrow> INV (handleCommitmentPoint turn uuid now s)"
  by (simp add: H_def INV_def handleCommitmentPoint_def Let_def stall_start_def
      stall_schedule_def setTimeout_def split: prod.splits)

lemma H_startPaused: "H s \<Longrightarrow> INV (startPaused Negotiating (s\<lparr>waitingForLLM := False\<rparr>))"
  by (simp add: H_def INV_def startPaused_def)


lemma fields_sendChatMessage:
  assumes "sendChatMessage env t s = Some s'"
  shows "state s' = state s \<and> pausedFromState s' = pausedFromState s
     \<and> pendingApproval s' = pendingApproval s \<and> approvalResolve s' = approvalResolve s
     \<and> waitingForLLM s' = waitingForLLM s \<and> tasks s' = tasks s"
  using core_sendChatMessage [OF assms] by (simp add: core_eq_iff)

lemma fields_executeAction:
  assumes "executeAction env now a s = Some s'"
  shows "state s' = state s \<and> pausedFromState s' = pausedFromState s
     \<and> pendingApproval s' = pendingApproval s \<and> approvalResolve s' = approvalResolve s
     \<and> waitingForLLM s' = waitingForLLM s \<and> tasks s' = tasks s"
  using core_executeAction [OF assms] by (simp add: core_eq_iff)

lemma H_sendChatMessage: "sendChatMessage env t s = Some s' \<Longrightarrow> H s \<Longrightarrow> H s'"
  using H_core [OF core_sendChatMessage] by blast

lemma H_executeAction: "executeAction env now a s = Some s' \<Longrightarrow> H s \<Longrightarrow> H s'"
  using H_core [OF core_executeAction] by blast

lemmas H_helpers [simp] =
  H_core [OF core_sendToUI] H_core [OF core_addMessage] H_core [OF core_appendNewMessages]
  H_core [OF core_resetInactivityTimer]

lemma H_other_upd [simp]: "H (s\<lparr>approvalDirective := d\<rparr>) = H s"
  by (simp add: H_def)

lemma INV_negotiation_act: "H s \<Longrightarrow> waitingForLLM s \<Longrightarrow> INV (negotiation_act turn w s)"
  by (auto simp: negotiation_act_def H_commit H_turn_finally split: option.splits
      dest: H_executeAction)

lemma INV_negotiationTurn_result:
  "H s \<Longrightarrow> waitingForLLM s \<Longrightarrow> INV (negotiationTurn_result w s)"
  by (auto simp: negotiationTurn_result_def Let_def H_turn_finally INV_negotiation_act H_spawn
      split: llm_result.splits list.splits)

lemma INV_negotiationTurn_researched:
  "H s \<Longrightarrow> waitingForLLM s \<Longrightarrow> INV (negotiationTurn_researched turn w s)"
  by (simp add: negotiationTurn_researched_def INV_negotiation_act)

lemma INV_send_generated: "H s \<Longrightarrow> INV (send_generated e w s)"
  by (auto simp: send_generated_def H_turn_finally split: option.splits
      dest: H_sendChatMessage)

lemma INV_reachHumanTurn_result:
  "H s \<Longrightarrow> waitingForLLM s \<Longrightarrow> INV (reachHumanTurn_result w s)"
  by (auto simp: reachHumanTurn_result_def Let_def H_turn_finally H_spawn H_setState
      split: llm_result.splits option.splits dest: H_executeAction)

lemma INV_extractMessagesOnly_result: "H s \<Longrightarrow> INV (extractMessagesOnly_result w s)"
proof -
  have c: "\<And>b ms. core ((appendNewMessages b ms s)\<lparr>waitingForLLM := False\<rparr>)
                    = core (s\<lparr>waitingForLLM := False\<rparr>)"
    by (simp add: core_eq_iff)
  show "H s \<Longrightarrow> INV (extractMessagesOnly_result w s)"
    by (simp add: extractMessagesOnly_result_def H_unflag INV_core [OF c]
        split: llm_result.splits)
qed

lemma INV_handleCommitmentPoint_snapshot:
  "H s \<Longrightarrow> waitingForLLM s \<Longrightarrow> INV (handleCommitmentPoint_snapshot approved w s)"
  by (simp add: handleCommitmentPoint_snapshot_def H_turn_finally H_spawn
      split: option.splits)

lemma INV_after_start_unflag:
  assumes "H s" "core x = core s"
  shows "INV (after_start c (x\<lparr>waitingForLLM := False\<rparr>))"
proof -
  have "H x" using H_core [OF assms(2)] assms(1) by simp
  then show ?thesis by (simp add: after_start_def H_unflag H_startPaused)
qed

lemma INV_kickoff_snapshot:
  assumes "H s" "waitingForLLM s"
  shows "INV (kickoff_snapshot c w s)"
proof (cases "o_snapshot w")
  case None
  then show ?thesis
    using INV_after_start_unflag [OF assms(1) core_sendToUI]
    by (simp add: kickoff_snapshot_def)
next
  case (Some a)
  then show ?thesis using assms by (simp add: kickoff_snapshot_def H_spawn)
qed

lemma INV_kickoff_result:
  assumes "H s"
  shows "INV (kickoff_result c w s)"
proof -
  define x where "x =
    (case o_llm w of
       Llm_failed \<Rightarrow> sendToUI (Error_message ''Failed to analyze page'') s
     | Llm_text t \<Rightarrow>
         sendToUI (Agent_unsure
                     ''I couldn't determine how to start the chat. What should I do?''
                     ''Initial page analysis failed'')
           (addMessage \<lparr>msg_sender = System,
                         msg_text = ''Agent needs help: I couldn't determine how to start the chat. What should I do?'',
                         msg_timestamp = o_now w\<rparr> s)
     | Tool_call act \<Rightarrow>
         (case executeAction (o_send w) (o_now w) act s of
            None \<Rightarrow> sendToUI (Error_message ''Failed to analyze page'') s
          | Some s' \<Rightarrow> resetInactivityTimer INACTIVITY_MS (real (o_now w)) s'))"
  have k: "kickoff_result c w s = after_start c (x\<lparr>waitingForLLM := False\<rparr>)"
    by (simp add: kickoff_result_def x_def)
  have "core x = core s"
    unfolding x_def
    by (auto simp: core_eq_iff split: llm_result.splits option.splits
        dest!: fields_executeAction)
  from INV_after_start_unflag [OF assms this] show ?thesis by (simp add: k)
qed


lemma Hc_respawn: "Hc p s \<Longrightarrow> INV (spawn (Commit_wait p) s)"
  by (simp add: Hc_def INV_def)

lemma stall_stop_fields:
  "core (case stall_stop (stallManager s, timers s) of
           (M, T) \<Rightarrow> s\<lparr>stallManager := M, timers := T\<rparr>) = core s"
  by (simp add: stall_stop_def core_def split: option.splits prod.splits)

lemma Hc_resolved: 
  assumes "Hc p s"
  shows "INV (handleCommitmentPoint_resolved approved now s)"
proof -
  define s1 where "s1 = (case stall_stop (stallManager s, timers s) of
                  (M, T) \<Rightarrow> s\<lparr>stallManager := M, timers := T\<rparr>)"
  define s2 where "s2 = s1\<lparr>pendingApproval := None, approvalResolve := None\<rparr>"
  have c1: "core s1 = core s" unfolding s1_def by (rule stall_stop_fields)
  then have f: "state s2 = state s" "pausedFromState s2 = pausedFromState s"
    "tasks s2 = tasks s" "pendingApproval s2 = None" "approvalResolve s2 = None"
    "waitingForLLM s2 = waitingForLLM s"
    by (simp_all add: s2_def core_eq_iff)
  have r: "handleCommitmentPoint_resolved approved now s =
      (if state s2 = Done then turn_finally now s2
       else spawn (Commit_snapshot approved) (setState Negotiating s2))"
    by (simp add: handleCommitmentPoint_resolved_def Let_def s1_def s2_def)
  show ?thesis
  proof (cases "state s2 = Done")
    case True
    then have "H s2" using assms f by (simp add: H_def Hc_def)
    then show ?thesis using True by (simp add: r H_turn_finally)
  next
    case False
    have "H (setState Negotiating s2)" using assms f by (simp add: H_def Hc_def)
    moreover have "waitingForLLM (setState Negotiating s2)" using assms f by (simp add: Hc_def)
    ultimately show ?thesis using False by (simp add: r H_spawn)
  qed
qed

lemma INV_settle_commit_wait: "Hc p s \<Longrightarrow> INV (settle (Commit_wait p) w s)"
  by (simp add: Hc_respawn Hc_resolved split: option.splits)

text \<open>Continuations of the unguarded tasks.\<close>

lemma core_followup_result: "core (followup_result w s) = core s"
  by (auto simp: followup_result_def core_eq_iff split: option.splits
      dest!: fields_sendChatMessage)

lemma INV_followup_snapshot: "INV s \<Longrightarrow> INV (followup_snapshot w s)"
  by (simp add: followup_snapshot_def INV_core [OF core_resetInactivityTimer] INV_spawn_plain
      split: option.splits)

lemma core_stop_summary: "core (snd (stop_summary r now s)) = core s"
  by (simp add: stop_summary_def core_addMessage split: option.splits)

lemma core_override_sent: "core (override_sent t w s) = core s"
  by (auto simp: override_sent_def Let_def core_eq_iff setTimeout_def
      split: option.splits dest!: fields_sendChatMessage)

lemma core_stall_sent: "core (stall_sent t w s) = core s"
  by (auto simp: stall_sent_def Let_def core_eq_iff stall_fire_end_def stall_schedule_def
      setTimeout_def split: option.splits prod.splits dest!: fields_sendChatMessage)

lemma INV_fresh_snapshot: "INV s \<Longrightarrow> INV (fresh_snapshot w s)"
  by (simp add: fresh_snapshot_def INV_processTurn split: option.splits)

lemma INV_inactivity_snapshot:
  "INV s \<Longrightarrow> filter is_start (tasks s) = [] \<Longrightarrow> INV (inactivity_snapshot w s)"
  by (simp add: inactivity_snapshot_def INV_reachHumanTurn split: option.splits)

lemma INV_start_navigated:
  assumes "INV s" "\<not> waitingForLLM s" "pendingApproval s = None"
    "filter is_start (tasks s) = []"
  shows "INV (start_navigated c w s)"
proof (cases "o_navigated w")
  case False
  then show ?thesis using assms(1) by (simp add: start_navigated_def)
next
  case True
  define x where "x = (setState Reaching_human s)\<lparr>listening := True, polling := True\<rparr>"
  note d = INV_D [OF assms(1)]
  have fx: "state x = Reaching_human" "pausedFromState x = pausedFromState s"
    "pendingApproval x = None" "approvalResolve x = approvalResolve s"
    "waitingForLLM x = waitingForLLM s" "tasks x = tasks s"
    using assms(3) by (simp_all add: x_def)
  have "INV x"
    using d assms(2,3,4) by (simp add: INV_def fx)
  then have "INV (spawn (Kickoff_snapshot c) (x\<lparr>waitingForLLM := True\<rparr>))"
    using assms(2,4) fx by (intro INV_begin) simp_all
  then show ?thesis
    using True assms(2) fx
    by (simp add: start_navigated_def kickoff_def x_def [symmetric] INV_spawn_sendToUI)
qed


text \<open>Taking a task off the list of suspended tasks.\<close>

lemma pick_guarded:
  assumes "INV s" "tasks s = pre @ t # post" "guarded t" "\<And>p. t \<noteq> Commit_wait p"
  shows "H (s\<lparr>tasks := pre @ post\<rparr>)" "waitingForLLM s"
proof -
  note d = INV_D [OF assms(1)]
  from d(1) assms(2,3) have g: "filter guarded pre = []" "filter guarded post = []" by auto
  from d(2) assms(2,3) show fl: "waitingForLLM s" by simp
  from d(6) fl have st: "filter is_start (tasks s) = []" by blast
  have ar: "approvalResolve s = None"
  proof (cases "approvalResolve s")
    case (Some p)
    from d(5) [OF Some] assms(2,4) have "Commit_wait p \<in> set pre \<union> set post" by auto
    then have "\<exists>x \<in> set pre \<union> set post. guarded x" by force
    with g show ?thesis by (auto simp: filter_empty_conv)
  qed simp
  with d(3) have pa: "pendingApproval s = None" by simp
  have nst: "\<not> is_start t" using assms(3) by (cases t) auto
  show "H (s\<lparr>tasks := pre @ post\<rparr>)"
    using g st ar pa d(4) assms(2) nst by (auto simp: H_def)
qed

lemma pick_commit:
  assumes "INV s" "tasks s = pre @ Commit_wait p # post"
  shows "Hc p (s\<lparr>tasks := pre @ post\<rparr>)"
proof -
  note d = INV_D [OF assms(1)]
  from d(1) assms(2) have g: "filter guarded pre = []" "filter guarded post = []" by auto
  from d(2) assms(2) have fl: "waitingForLLM s" by simp
  from d(6) fl have st: "filter is_start (tasks s) = []" by blast
  have ar: "\<forall>q. approvalResolve s = Some q \<longrightarrow> q = p"
  proof (intro allI impI)
    fix q assume q: "approvalResolve s = Some q"
    show "q = p"
    proof (rule ccontr)
      assume "q \<noteq> p"
      with d(5) [OF q] assms(2) have "Commit_wait q \<in> set pre \<union> set post" by auto
      then have "\<exists>x \<in> set pre \<union> set post. guarded x" by force
      with g show False by (auto simp: filter_empty_conv)
    qed
  qed
  show ?thesis
    using g st fl ar d(3,4) assms(2) by (auto simp: Hc_def)
qed

lemma pick_plain:
  assumes "INV s" "tasks s = pre @ t # post" "\<not> guarded t"
  shows "INV (s\<lparr>tasks := pre @ post\<rparr>)"
proof -
  note d = INV_D [OF assms(1)]
  have ne: "\<And>p. t \<noteq> Commit_wait p" using assms(3) by auto
  show ?thesis
  proof (rule INV_I)
    show "length (filter guarded (tasks (s\<lparr>tasks := pre @ post\<rparr>))) \<le> 1"
      using d(1) assms(2,3) by simp
    show "waitingForLLM (s\<lparr>tasks := pre @ post\<rparr>)
            \<longleftrightarrow> filter guarded (tasks (s\<lparr>tasks := pre @ post\<rparr>)) \<noteq> []"
      using d(2) assms(2,3) by simp
    show "approvalResolve (s\<lparr>tasks := pre @ post\<rparr>) \<noteq> None
            \<longleftrightarrow> pendingApproval (s\<lparr>tasks := pre @ post\<rparr>) \<noteq> None"
      using d(3) by simp
    show "pendingApproval (s\<lparr>tasks := pre @ post\<rparr>) \<noteq> None \<longleftrightarrow>
          state (s\<lparr>tasks := pre @ post\<rparr>) = Awaiting_approval
          \<or> (state (s\<lparr>tasks := pre @ post\<rparr>) = Paused
             \<and> pausedFromState (s\<lparr>tasks := pre @ post\<rparr>) = Some Awaiting_approval)"
      using d(4) by simp
    show "\<And>p. approvalResolve (s\<lparr>tasks := pre @ post\<rparr>) = Some p
            \<Longrightarrow> Commit_wait p \<in> set (tasks (s\<lparr>tasks := pre @ post\<rparr>))"
      using d(5) assms(2) ne by auto
    show "length (filter is_start (tasks (s\<lparr>tasks := pre @ post\<rparr>))) \<le> 1"
      using d(7) assms(2) by (simp split: if_splits)
    show "filter is_start (tasks (s\<lparr>tasks := pre @ post\<rparr>)) \<noteq> [] \<Longrightarrow>
          \<not> waitingForLLM (s\<lparr>tasks := pre @ post\<rparr>)
          \<and> pendingApproval (s\<lparr>tasks := pre @ post\<rparr>) = None
          \<and> (state (s\<lparr>tasks := pre @ post\<rparr>) = Connecting
              \<or> state (s\<lparr>tasks := pre @ post\<rparr>) = Paused
              \<or> state (s\<lparr>tasks := pre @ post\<rparr>) = Done)
          \<and> (pausedFromState (s\<lparr>tasks := pre @ post\<rparr>) = None
              \<or> pausedFromState (s\<lparr>tasks := pre @ post\<rparr>) = Some Connecting)
          \<and> Inactivity_snapshot \<notin> set (tasks (s\<lparr>tasks := pre @ post\<rparr>))"
    proof -
      assume "filter is_start (tasks (s\<lparr>tasks := pre @ post\<rparr>)) \<noteq> []"
      then have "filter is_start (tasks s) \<noteq> []" using assms(2) by auto
      from d(6) [OF this] assms(2) show ?thesis by auto
    qed
  qed
qed

lemma pick_start:
  assumes "INV s" "tasks s = pre @ Start_navigate c # post"
  shows "\<not> waitingForLLM s" "pendingApproval s = None" "filter is_start (pre @ post) = []"
proof -
  note d = INV_D [OF assms(1)]
  have "filter is_start (tasks s) \<noteq> []" using assms(2) by simp
  from d(6) [OF this] show "\<not> waitingForLLM s" "pendingApproval s = None" by simp_all
  from d(7) assms(2) show "filter is_start (pre @ post) = []" by auto
qed

lemma pick_inactivity:
  assumes "INV s" "tasks s = pre @ Inactivity_snapshot # post"
  shows "filter is_start (pre @ post) = []"
proof (rule ccontr)
  assume "filter is_start (pre @ post) \<noteq> []"
  then have "filter is_start (tasks s) \<noteq> []" using assms(2) by auto
  from INV_D(6) [OF assms(1) this] assms(2) show False by simp
qed

lemma INV_settle:
  assumes inv: "INV s" and ts: "tasks s = pre @ t # post"
  shows "INV (settle t w (s\<lparr>tasks := pre @ post\<rparr>))"
proof -
  let ?s = "s\<lparr>tasks := pre @ post\<rparr>"
  have fl: "waitingForLLM ?s = waitingForLLM s" by simp
  note g = pick_guarded [OF inv ts] fl
  note p = pick_plain [OF inv ts]
  note c = INV_core [OF core_followup_result] INV_core [OF core_stop_summary]
    INV_core [OF core_override_sent] INV_core [OF core_stall_sent]
  show ?thesis
  proof (cases t)
    case (Start_navigate x)
    with p pick_start [OF inv ts [unfolded Start_navigate]] show ?thesis
      by (simp add: INV_start_navigated)
  next
    case (Commit_wait x)
    with pick_commit [OF inv ts [unfolded Commit_wait]] show ?thesis
      by (simp only: INV_settle_commit_wait)
  next
    case Inactivity_snapshot
    with p pick_inactivity [OF inv ts [unfolded Inactivity_snapshot]] show ?thesis
      by (simp add: INV_inactivity_snapshot)
  qed (use g p c in \<open>simp_all add: INV_kickoff_snapshot INV_kickoff_result
        INV_reachHumanTurn_result INV_send_generated INV_negotiationTurn_result
        INV_negotiationTurn_researched INV_handleCommitmentPoint_snapshot
        INV_extractMessagesOnly_result INV_followup_snapshot INV_fresh_snapshot\<close>)
qed

lemma INV_step: "INV s \<Longrightarrow> INV (step e s)"
proof (cases e)
  case (Settled i w)
  assume inv: "INV s"
  show ?thesis
  proof (cases "i < length (tasks s)")
    case True
    from id_take_nth_drop [OF True]
    have "tasks s = take i (tasks s) @ tasks s ! i # drop (Suc i) (tasks s)" .
    from INV_settle [OF inv this] True Settled show ?thesis by simp
  next
    case False
    with inv Settled show ?thesis by simp
  qed
qed (simp_all add: INV_pause INV_resume INV_stop INV_core [OF core_handleApproval]
      INV_core [OF core_handleRejection] INV_core [OF core_handleUserDirective]
      INV_handleUserOverride INV_core [OF core_handleUserTyping]
      INV_core [OF core_handleSnapshotChanged] INV_timer_fired)

lemma INV_run: "INV s \<Longrightarrow> INV (run evs s)"
  unfolding run_def by (induction evs arbitrary: s) (simp_all add: INV_step)

lemma INV_reachable: "reachable s \<Longrightarrow> INV s"
  unfolding reachable_def using INV_run [OF INV_init] by blast

subsection \<open>Concrete sessions and properties of the reachable states\<close>

lemmas exec =
  run_def fresh_def quiet_def no_args_def offer_def
  session_to_negotiating_def session_to_approval_def session_to_reach_call_def
  session_typing_pause_def glance_def
  session_stop_in_turn_def after_stop_def human_found_def session_offer_after_stop_def
  session_resume_no_snapshot_def
  start_def new_agent_def spawn_def setState_def sendToUI_def addMessage_def
  start_navigated_def kickoff_def kickoff_snapshot_def kickoff_result_def after_start_def
  handleSnapshotChanged_def setTimeout_def clearTimeout_def take_timer_def
  resetInactivityTimer_def detectTypingIndicator_def toLowerCase_def
  timer_fired_def processTurn_def reachHumanTurn_def negotiationTurn_def extractMessagesOnly_def
  reachHumanTurn_result_def negotiationTurn_result_def negotiation_act_def
  handleCommitmentPoint_def send_generated_def turn_finally_def appendNewMessages_def
  deduplicateMessages_def message_key_def executeAction_def orElse_def shouldResearch_def
  stall_start_def stall_schedule_def stall_delay_def stall_stop_def stall_fire_def
  stall_fire_end_def INACTIVITY_MS_def TYPING_INACTIVITY_MS_def USER_TYPING_DELAY_MS_def
  FIRST_STALL_DELAY_MS_def MIN_STALL_INTERVAL_MS_def MAX_STALL_JITTER_MS_def
  pause_def resume_def stop_def stop_now_def handleApproval_def handleRejection_def
  clearDebounce_def clearInactivity_def clearUserTypingDelay_def handleUserTyping_def
  handleUserOverride_def handleUserDirective_def handleInactivity_def typing_expired_def
  override_sent_def stall_sent_def fresh_snapshot_def inactivity_snapshot_def
  followup_snapshot_def followup_result_def stop_summary_def resolve_promise_def
  handleCommitmentPoint_resolved_def handleCommitmentPoint_snapshot_def
  extractMessagesOnly_result_def negotiationTurn_researched_def Let_def

lemma run_append: "run (xs @ ys) s = run ys (run xs s)"
  by (simp add: run_def)

lemma reachable_run: "reachable (run evs (start c (new_agent p prior)))"
  unfolding reachable_def by blast

lemma reachable_fresh: "reachable (run evs fresh)"
  unfolding fresh_def by (rule reachable_run)

lemma glance_approval:
  "glance (run session_to_approval fresh) =
     (Awaiting_approval, None, True, True, [Commit_wait 0],
      [(4, 35000, Inactivity_cb), (5, 45000, Stall_cb)])"
  by (simp add: exec)

lemma length_filter_mono:
  "(\<And>x. P x \<Longrightarrow> Q x) \<Longrightarrow> length (filter P xs) \<le> length (filter Q xs)"
  by (induction xs) auto

lemma glance_paused_in_approval:
  "glance (run (session_to_approval @ [Cmd_pause]) fresh) =
     (Paused, Some Awaiting_approval, True, True, [Commit_wait 0], [(5, 45000, Stall_cb)])"
  by (simp add: exec)

text \<open>
  Against C1 as stated: after the commitment of the session above, \<open>pause()\<close> is
  accepted; the phase is \<open>paused\<close> and the approval request is still pending.
\<close>

theorem approval_pending_while_paused:
  "state (run (session_to_approval @ [Cmd_pause]) fresh) = Paused
   \<and> pendingApproval (run (session_to_approval @ [Cmd_pause]) fresh) \<noteq> None"
  using glance_paused_in_approval by (simp add: glance_def)

text \<open>
  C1 (as amended). In every reachable state there is at most one approval request and
  at most one turn suspended on a rendezvous; a request is pending exactly when the
  resolver is stored, and exactly when the phase is \<open>awaiting_approval\<close> or the agent
  was paused from \<open>awaiting_approval\<close>; every event leads to a reachable state again.
\<close>

theorem approval_request_invariant:
  assumes "reachable s"
  shows "(pendingApproval s \<noteq> None \<longleftrightarrow>
            state s = Awaiting_approval
            \<or> (state s = Paused \<and> pausedFromState s = Some Awaiting_approval))
         \<and> (approvalResolve s \<noteq> None \<longleftrightarrow> pendingApproval s \<noteq> None)
         \<and> length (filter is_commit_wait (tasks s)) \<le> 1
         \<and> reachable (step e s)"
proof -
  note d = INV_D [OF INV_reachable [OF assms]]
  have "length (filter is_commit_wait (tasks s)) \<le> length (filter guarded (tasks s))"
  proof (rule length_filter_mono)
    fix x assume "is_commit_wait x" then show "guarded x" by (cases x) auto
  qed
  with d(1) have one: "length (filter is_commit_wait (tasks s)) \<le> 1" by simp
  from assms obtain p prior c evs where "s = run evs (start c (new_agent p prior))"
    unfolding reachable_def by blast
  then have "step e s = run (evs @ [e]) (start c (new_agent p prior))"
    by (simp add: run_def)
  then have "reachable (step e s)" by (simp add: reachable_run)
  with d(3,4) one show ?thesis by blast
qed

theorem approval_request_invariant_witness:
  "state (run session_to_approval fresh) = Awaiting_approval
   \<and> pendingApproval (run session_to_approval fresh) \<noteq> None
   \<and> approvalResolve (run session_to_approval fresh) \<noteq> None
   \<and> length (filter is_commit_wait (tasks (run session_to_approval fresh))) \<le> 1"
  using approval_request_invariant [OF reachable_fresh, of session_to_approval Cmd_pause]
    glance_approval
  by (simp add: glance_def)

text \<open>
  C3 (the code at the failing input). In every reachable state whose phase is
  \<open>awaiting_approval\<close> the flag \<open>waitingForLLM\<close> is set, because the turn that
  detected the commitment is still suspended; so \<open>processTurn\<close> returns at the guard
  of \<open>extractMessagesOnly\<close>: no decision call is made and no message is appended.
\<close>

theorem extraction_turn_never_runs:
  assumes "reachable s" and "state s = Awaiting_approval"
  shows "waitingForLLM s \<and> processTurn snapshot s = s"
proof -
  note d = INV_D [OF INV_reachable [OF assms(1)]]
  from d(4) assms(2) have "pendingApproval s \<noteq> None" by simp
  with d(3) obtain p where "approvalResolve s = Some p" by auto
  from d(5) [OF this] have "\<exists>x \<in> set (tasks s). guarded x" by force
  then have "filter guarded (tasks s) \<noteq> []" by (auto simp: filter_empty_conv)
  with d(2) have fl: "waitingForLLM s" by simp
  then show ?thesis
    using assms(2) by (simp add: processTurn_def extractMessagesOnly_def)
qed

theorem extraction_turn_never_runs_witness:
  "state (run session_to_approval fresh) = Awaiting_approval
   \<and> processTurn ''Sam: are you still there?'' (run session_to_approval fresh)
       = run session_to_approval fresh"
  using extraction_turn_never_runs [OF reachable_fresh, of session_to_approval]
    glance_approval
  by (simp add: glance_def)

lemma glance_stop_during_turn:
  "glance (run (session_to_reach_call @ [Cmd_stop]) fresh) =
     (Done, None, False, True, [Reach_llm ''page1'', Summary_llm], [])"
  by (simp add: exec)

text \<open>
  Against C5 as stated: \<open>stop()\<close> arrives while the reach-human turn waits for its
  decision; the log is not empty, so the summary is requested, and two calls of the
  model are outstanding.
\<close>

theorem two_decision_calls_in_flight:
  "length (filter llm_call (tasks (run (session_to_reach_call @ [Cmd_stop]) fresh))) = 2"
  using glance_stop_during_turn by (simp add: glance_def)

text \<open>
  C5 (as amended). In every reachable state at most one guarded turn (\<open>kickoff\<close>, a
  reach-human, negotiation or extraction turn, from its decision call to its
  \<open>finally\<close> block) is in flight, and \<open>waitingForLLM\<close> is set exactly then; a turn
  dispatch or a watchdog callback that arrives while the flag is set leaves the agent
  unchanged, so it is dropped and not queued.
\<close>

theorem single_flight_turns:
  assumes "reachable s"
  shows "length (filter guarded (tasks s)) \<le> 1
         \<and> (waitingForLLM s \<longleftrightarrow> filter guarded (tasks s) \<noteq> [])
         \<and> (waitingForLLM s \<longrightarrow>
               processTurn snapshot s = s \<and> reachHumanTurn snapshot s = s
               \<and> negotiationTurn snapshot s = s \<and> extractMessagesOnly snapshot s = s
               \<and> kickoff False s = s \<and> handleInactivity s = s)"
proof -
  note d = INV_D [OF INV_reachable [OF assms]]
  show ?thesis
    using d(1,2)
    by (simp add: processTurn_def reachHumanTurn_def negotiationTurn_def
        extractMessagesOnly_def kickoff_def after_start_def handleInactivity_def)
qed

theorem single_flight_turns_witness:
  "waitingForLLM (run session_to_approval fresh)
   \<and> length (filter guarded (tasks (run session_to_approval fresh))) \<le> 1
   \<and> processTurn ''page3'' (run session_to_approval fresh) = run session_to_approval fresh"
  using single_flight_turns [OF reachable_fresh, of session_to_approval "''page3''"]
    glance_approval
  by (simp add: glance_def)

subsection \<open>Commitment detection\<close>

lemma handleCommitmentPoint_opens:
  "approval_opened turn now (handleCommitmentPoint turn uuid now s)"
  by (simp add: approval_opened_def handleCommitmentPoint_def Let_def spawn_def sendToUI_def
      setState_def stall_start_def stall_schedule_def setTimeout_def stall_delay_def
      FIRST_STALL_DELAY_MS_def split: prod.splits)

lemma negotiation_act_commitment:
  "isCommitment turn \<Longrightarrow>
     negotiation_act turn w s = handleCommitmentPoint turn (o_uuid w) (real (o_now w)) s"
  by (simp add: negotiation_act_def)

lemma glance_bare_offer:
  "glance (run session_bare_offer fresh) =
     (Negotiating, None, False, False, [], [(5, 40000, Inactivity_cb)])"
  by (simp add: exec session_bare_offer_def bare_offer_def)

text \<open>
  Against C2 as stated: in the negotiating phase a decision reports a commitment and
  no new message; the turn ends at the test \<open>dedupedMessages.length === 0\<close>, the
  phase stays \<open>negotiating\<close> and no approval is requested.
\<close>

theorem commitment_without_new_message_is_skipped:
  "isCommitment bare_offer
   \<and> state (run session_to_negotiating fresh) = Negotiating
   \<and> state (run session_bare_offer fresh) = Negotiating
   \<and> pendingApproval (run session_bare_offer fresh) = None"
proof -
  have "glance (run session_to_negotiating fresh) =
     (Negotiating, None, False, False, [], [(2, 26000, Inactivity_cb)])"
    by (simp add: exec)
  with glance_bare_offer show ?thesis
    by (simp add: glance_def bare_offer_def no_args_def)
qed

text \<open>
  C2 (as amended). When a negotiation turn's decision reports a commitment while the
  phase is not paused and the user is not typing, and at least one reported message
  survives deduplication, the agent opens the approval: the phase becomes
  \<open>awaiting_approval\<close>, the last message to the UI is \<open>approval_required\<close> with
  the decision's recommendation (\<open>reject\<close> when it gives none) and its
  counter-suggestion, and the StallManager is started (its timer due in 20000 ms,
  its counter zero). Where the last new message of the representative triggers
  research, the turn first waits for the research and opens the approval after it.
\<close>

theorem commitment_opens_approval:
  assumes "o_llm w = Tool_call turn" and "isCommitment turn"
    and "state s \<noteq> Paused" and "\<not> userTyping s"
    and "deduplicateMessages (conversation s) (newMessages turn) \<noteq> []"
  shows "approval_opened turn (real (o_now w)) (negotiationTurn_result w s)
         \<or> (Negotiate_research turn \<in> set (tasks (negotiationTurn_result w s))
            \<and> (\<forall>w' s'. approval_opened turn (real (o_now w'))
                           (settle (Negotiate_research turn) w' s')))"
proof -
  have act: "\<And>w' s'. approval_opened turn (real (o_now w')) (negotiation_act turn w' s')"
    using assms(2) by (simp add: negotiation_act_commitment handleCommitmentPoint_opens)
  show ?thesis
    using assms act
    by (auto simp: negotiationTurn_result_def Let_def negotiationTurn_researched_def spawn_def
        sendToUI_def split: list.splits)
qed

theorem commitment_opens_approval_witness:
  "approval_opened offer 25000
     (negotiationTurn_result (quiet\<lparr>o_now := 25000, o_llm := Tool_call offer\<rparr>)
        (negotiationTurn ''page2'' ((new_agent ''ISP'' [])\<lparr>state := Negotiating\<rparr>)))"
  using commitment_opens_approval
    [of "quiet\<lparr>o_now := 25000, o_llm := Tool_call offer\<rparr>" offer
        "negotiationTurn ''page2'' ((new_agent ''ISP'' [])\<lparr>state := Negotiating\<rparr>)"]
  by (simp add: exec)

subsection \<open>Stop, pause and resume\<close>

lemma clearTimeout_handles:
  "fst ` set (pending (clearTimeout h T)) = fst ` set (pending T) - {h}"
  by (auto simp: clearTimeout_def)

lemma cancel_handles:
  "fst ` set (pending (cancel a T)) = fst ` set (pending T) - set_option a"
  by (cases a) (simp_all add: clearTimeout_handles)

lemma stop_now_timers:
  "fst ` set (pending (timers (stop_now s))) = fst ` set (pending (timers s)) - held_timers s"
  by (auto simp: stop_now_def Let_def stall_stop_def held_timers_def cancel_handles
      clearTimeout_handles setState_def sendToUI_def split: option.splits prod.splits)

lemma stop_timers:
  "fst ` set (pending (timers (stop s))) = fst ` set (pending (timers s)) - held_timers s"
  by (simp add: stop_def Let_def spawn_def stop_now_timers)

lemma map_of_resolve_promise:
  "map_of (resolve_promise p b rs) p = (case map_of rs p of None \<Rightarrow> Some b | Some v \<Rightarrow> Some v)"
  by (cases "map_of rs p") (simp_all add: resolve_promise_def map_add_def)

lemma stop_now_rest:
  "state (stop_now s) = Done \<and> \<not> polling (stop_now s) \<and> \<not> listening (stop_now s)
   \<and> \<not> userTyping (stop_now s) \<and> approvalResolve (stop_now s) = None
   \<and> pausedFromState (stop_now s) = None
   \<and> timer (stallManager (stop_now s)) = None \<and> count (stallManager (stop_now s)) = 0
   \<and> conversation (stop_now s) = conversation s
   \<and> (approvalResolve s \<noteq> None \<longrightarrow> pendingApproval (stop_now s) = None)
   \<and> (\<forall>p. approvalResolve s = Some p \<longrightarrow>
          map_of (resolved (stop_now s)) p
            = (case map_of (resolved s) p of None \<Rightarrow> Some False | Some v \<Rightarrow> Some v))"
  by (auto simp: stop_now_def Let_def stall_stop_def setState_def sendToUI_def
      map_of_resolve_promise split: option.splits prod.splits)

text \<open>
  What \<open>stop()\<close> itself does, in any phase: it sets the phase to \<open>done\<close>,
  cancels exactly the timers whose handles the agent holds (debounce, inactivity,
  user typing, and the StallManager's), stops the observer and removes its listener,
  and clears the typing flag; when a rendezvous is pending it resolves its promise as
  rejected (a promise resolved before keeps its value) and clears the resolver and
  the request, so that the turn waiting on it continues; \<open>summarize()\<close> is awaited
  only when the log is not empty, and when it fails \<open>stop()\<close> still returns, with
  no summary and the agent unchanged.
\<close>

lemma stop_effect:
  "state (stop s) = Done
   \<and> fst ` set (pending (timers (stop s))) = fst ` set (pending (timers s)) - held_timers s
   \<and> \<not> polling (stop s) \<and> \<not> listening (stop s) \<and> \<not> userTyping (stop s)
   \<and> approvalResolve (stop s) = None
   \<and> (approvalResolve s \<noteq> None \<longrightarrow> pendingApproval (stop s) = None)
   \<and> (\<forall>p. approvalResolve s = Some p \<longrightarrow>
          map_of (resolved (stop s)) p
            = (case map_of (resolved s) p of None \<Rightarrow> Some False | Some v \<Rightarrow> Some v))
   \<and> (\<forall>p. approvalResolve s = Some p \<longrightarrow> map_of (resolved s) p = None \<longrightarrow>
          (\<forall>w s'. resolved s' = resolved (stop s) \<longrightarrow>
             settle (Commit_wait p) w s'
               = handleCommitmentPoint_resolved False (real (o_now w)) s'))
   \<and> (\<forall>now s'. stop_summary None now s' = (None, s'))
   \<and> (\<forall>w s'. o_chat w = None \<longrightarrow> settle Summary_llm w s' = s')
   \<and> (conversation s = [] \<longrightarrow> tasks (stop s) = tasks s)
   \<and> (conversation s \<noteq> [] \<longrightarrow> tasks (stop s) = tasks s @ [Summary_llm])"
  using stop_now_rest [of s] stop_timers [of s]
  by (auto simp: stop_def Let_def spawn_def stop_summary_def stop_now_fields(6))

lemma glance_stop_in_turn:
  "glance (run session_stop_in_turn fresh) =
     (Done, None, False, True, [Reach_llm ''page1'', Summary_llm], [(3, 11000, Override_cb)])"
  by (simp add: exec)

lemma glance_after_stop:
  "(glance (run (session_stop_in_turn @ after_stop) fresh),
    outbound (run (session_stop_in_turn @ after_stop) fresh)) =
     ((Negotiating, None, False, True, [Summary_llm, Negotiate_llm ''page9''],
       [(4, 25000, Inactivity_cb)]),
      [Mcp_click ''e1'', Mcp_type ''e1'' ''hi'', Mcp_press_key ''Enter'',
       Mcp_click ''e5'', Mcp_type ''e5'' ''Hello Sam'', Mcp_press_key ''Enter''])"
  by (simp add: exec)

lemma glance_offer_after_stop:
  "glance (run session_offer_after_stop fresh) =
     (Awaiting_approval, None, True, True, [Summary_llm, Commit_wait 0],
      [(5, 45000, Stall_cb)])"
  by (simp add: exec)

text \<open>
  C4 (the code at the failing input). The reach-human turn is waiting for its
  decision and the timer of a user override is pending when \<open>stop()\<close> is called.
  \<open>stop()\<close> sets the phase to \<open>done\<close>, and the override's timer is still
  pending, since the agent stored no handle of it. The decision that arrives next is
  tested against \<open>paused\<close> only: the phase goes from \<open>done\<close> to
  \<open>negotiating\<close> and an opening message is sent to the chat; the timer then fires,
  and its callback starts a negotiation turn; the turn's \<open>finally\<close> block has
  armed the inactivity timer again. In the second session the decision that arrives
  after \<open>stop()\<close> reports a commitment: the phase goes from \<open>done\<close> to
  \<open>awaiting_approval\<close>, a request is pending, its turn is suspended on a new
  rendezvous, and the StallManager's timer is armed.
\<close>

theorem stop_leaves_agent_running:
  "state (run session_stop_in_turn fresh) = Done
   \<and> pending (timers (run session_stop_in_turn fresh)) = [(3, 11000, Override_cb)]
   \<and> state (run (session_stop_in_turn @ after_stop) fresh) = Negotiating
   \<and> tasks (run (session_stop_in_turn @ after_stop) fresh)
       = [Summary_llm, Negotiate_llm ''page9'']
   \<and> pending (timers (run (session_stop_in_turn @ after_stop) fresh))
       = [(4, 25000, Inactivity_cb)]
   \<and> outbound (run (session_stop_in_turn @ after_stop) fresh)
       = outbound (run session_stop_in_turn fresh)
         @ [Mcp_click ''e5'', Mcp_type ''e5'' ''Hello Sam'', Mcp_press_key ''Enter'']
   \<and> state (run session_offer_after_stop fresh) = Awaiting_approval
   \<and> pendingApproval (run session_offer_after_stop fresh) \<noteq> None
   \<and> tasks (run session_offer_after_stop fresh) = [Summary_llm, Commit_wait 0]
   \<and> pending (timers (run session_offer_after_stop fresh)) = [(5, 45000, Stall_cb)]"
proof -
  have o: "outbound (run session_stop_in_turn fresh)
             = [Mcp_click ''e1'', Mcp_type ''e1'' ''hi'', Mcp_press_key ''Enter'']"
    by (simp add: exec)
  show ?thesis
    using glance_stop_in_turn glance_after_stop glance_offer_after_stop o
    by (simp add: glance_def)
qed







text \<open>What keeps a pause: every event other than \<open>resume()\<close> and \<open>stop()\<close>.\<close>

lemma frozen_core: "core s' = core s \<Longrightarrow> frozen p s' = frozen p s"
  by (simp add: core_eq_iff frozen_def)


lemma frozen_flag [simp]: "frozen p (s\<lparr>waitingForLLM := b\<rparr>) = frozen p s"
  by (simp add: frozen_def)

lemmas frozen_helpers [simp] =
  frozen_core [OF core_sendToUI] frozen_core [OF core_addMessage]
  frozen_core [OF core_appendNewMessages] frozen_core [OF core_resetInactivityTimer]
  frozen_core [OF core_clearUserTypingDelay]
  frozen_core [OF core_upd_other(1)] frozen_core [OF core_upd_other(2)]
  frozen_core [OF core_upd_other(3)] frozen_core [OF core_upd_other(4)]
  frozen_core [OF core_upd_other(5)] frozen_core [OF core_upd_other(6)]
  frozen_core [OF core_upd_other(7)] frozen_core [OF core_upd_other(8)]
  frozen_core [OF core_handleApproval] frozen_core [OF core_handleRejection]
  frozen_core [OF core_handleUserDirective] frozen_core [OF core_handleUserTyping]
  frozen_core [OF core_handleSnapshotChanged]

lemma frozen_turn_finally [simp]: "frozen p (turn_finally now s) = frozen p s"
  by (simp add: turn_finally_def)
















subsection \<open>Timer handles stay fresh\<close>

lemma tf_frame:
  assumes "timers s' = timers s" "debounceTimer s' = debounceTimer s"
    "inactivityTimer s' = inactivityTimer s" "userTypingTimer s' = userTypingTimer s"
    "timer (stallManager s') = timer (stallManager s)"
  shows "timers_fresh s' = timers_fresh s"
  using assms by (simp add: timers_fresh_def held_timers_def)

lemma tf_simple [simp]:
  "timers_fresh (sendToUI m s) = timers_fresh s"
  "timers_fresh (addMessage c s) = timers_fresh s"
  "timers_fresh (setState st s) = timers_fresh s"
  "timers_fresh (spawn t s) = timers_fresh s"
  "timers_fresh (s\<lparr>waitingForLLM := b\<rparr>) = timers_fresh s"
  "timers_fresh (s\<lparr>pausedFromState := pf\<rparr>) = timers_fresh s"
  "timers_fresh (s\<lparr>pendingApproval := pa\<rparr>) = timers_fresh s"
  "timers_fresh (s\<lparr>approvalResolve := ar\<rparr>) = timers_fresh s"
  "timers_fresh (s\<lparr>approvalDirective := d\<rparr>) = timers_fresh s"
  "timers_fresh (s\<lparr>resolved := r\<rparr>) = timers_fresh s"
  "timers_fresh (s\<lparr>nextPromise := n\<rparr>) = timers_fresh s"
  "timers_fresh (s\<lparr>userTyping := b\<rparr>) = timers_fresh s"
  "timers_fresh (s\<lparr>polling := b\<rparr>) = timers_fresh s"
  "timers_fresh (s\<lparr>listening := b\<rparr>) = timers_fresh s"
  "timers_fresh (s\<lparr>tasks := ts\<rparr>) = timers_fresh s"
  by (simp_all add: timers_fresh_def held_timers_def sendToUI_def addMessage_def setState_def
      spawn_def)

lemma tf_foldl_addMessage: "timers_fresh (foldl (\<lambda>s' m. addMessage m s') s ms) = timers_fresh s"
  by (induction ms arbitrary: s) simp_all

lemma tf_appendNewMessages [simp]: "timers_fresh (appendNewMessages b ms s) = timers_fresh s"
  by (simp add: appendNewMessages_def tf_foldl_addMessage)

lemma tf_outbound [simp]: "timers_fresh (s\<lparr>outbound := ob\<rparr>) = timers_fresh s"
  by (simp add: timers_fresh_def held_timers_def)

lemma tf_sendChatMessage: "sendChatMessage env t s = Some s' \<Longrightarrow> timers_fresh s' = timers_fresh s"
  by (cases env) auto

lemma tf_executeAction: "executeAction env now a s = Some s' \<Longrightarrow> timers_fresh s' = timers_fresh s"
  by (auto simp: executeAction_def split: if_splits option.splits
      dest: tf_sendChatMessage)

lemma tf_resetInactivityTimer:
  "timers_fresh s \<Longrightarrow> timers_fresh (resetInactivityTimer ms now s)"
  by (cases "inactivityTimer s")
     (auto simp: timers_fresh_def held_timers_def resetInactivityTimer_def setTimeout_def
        clearTimeout_def distinct_map_filter less_Suc_eq)

lemma tf_clearDebounce: "timers_fresh s \<Longrightarrow> timers_fresh (clearDebounce s)"
  by (cases "debounceTimer s")
     (auto simp: timers_fresh_def held_timers_def clearDebounce_def clearTimeout_def
        distinct_map_filter)

lemma tf_clearInactivity: "timers_fresh s \<Longrightarrow> timers_fresh (clearInactivity s)"
  by (cases "inactivityTimer s")
     (auto simp: timers_fresh_def held_timers_def clearInactivity_def clearTimeout_def
        distinct_map_filter)

lemma tf_clearUserTypingDelay: "timers_fresh s \<Longrightarrow> timers_fresh (clearUserTypingDelay s)"
  by (cases "userTypingTimer s")
     (auto simp: timers_fresh_def held_timers_def clearUserTypingDelay_def clearTimeout_def
        distinct_map_filter)

lemma tf_cancel: "timers_fresh s \<Longrightarrow> timers_fresh (s\<lparr>timers := cancel a (timers s)\<rparr>)"
  by (cases a)
     (auto simp: timers_fresh_def held_timers_def clearTimeout_def distinct_map_filter)

lemma tf_stall_stop:
  "timers_fresh s \<Longrightarrow>
     timers_fresh (case stall_stop (stallManager s, timers s) of
                     (M, T) \<Rightarrow> s\<lparr>stallManager := M, timers := T\<rparr>)"
  by (cases "timer (stallManager s)")
     (auto simp: timers_fresh_def held_timers_def stall_stop_def clearTimeout_def
        distinct_map_filter)

lemma tf_stall_schedule:
  "timers_fresh s \<Longrightarrow>
     timers_fresh (case stall_schedule r now (M, timers s) of
                     (M', T) \<Rightarrow> s\<lparr>stallManager := M', timers := T\<rparr>)"
  by (auto simp: timers_fresh_def held_timers_def stall_schedule_def setTimeout_def
      less_Suc_eq)

lemma tf_stall_start:
  "timers_fresh s \<Longrightarrow>
     timers_fresh (case stall_start now (stallManager s, timers s) of
                     (M, T) \<Rightarrow> s\<lparr>stallManager := M, timers := T\<rparr>)"
  using tf_stall_schedule [of s 0 now "(stallManager s)\<lparr>count := 0\<rparr>"]
  by (simp add: stall_start_def)


lemma tf_turn_finally: "timers_fresh s \<Longrightarrow> timers_fresh (turn_finally now s)"
  by (simp add: turn_finally_def tf_resetInactivityTimer)

lemma tf_pause: "timers_fresh s \<Longrightarrow> timers_fresh (pause s)"
  by (simp add: pause_def tf_clearInactivity tf_clearDebounce)

lemma tf_resume: "timers_fresh s \<Longrightarrow> timers_fresh (resume now s)"
  by (simp add: resume_def tf_resetInactivityTimer split: option.splits)

lemma tf_startPaused [simp]: "timers_fresh (startPaused st s) = timers_fresh s"
  by (simp add: startPaused_def)

lemma tf_after_start [simp]: "timers_fresh (after_start c s) = timers_fresh s"
  by (simp add: after_start_def)

lemma tf_cancel3:
  assumes "timers_fresh s"
  shows "timers_fresh (s\<lparr>timers := cancel a (cancel b (cancel c (timers s)))\<rparr>)"
proof -
  have "timers_fresh (s\<lparr>timers := cancel c (timers s)\<rparr>)" using assms by (rule tf_cancel)
  from tf_cancel [OF this, of b]
  have "timers_fresh (s\<lparr>timers := cancel b (cancel c (timers s))\<rparr>)" by simp
  from tf_cancel [OF this, of a] show ?thesis by simp
qed

lemma tf_stop_now: "timers_fresh s \<Longrightarrow> timers_fresh (stop_now s)"
proof -
  assume a: "timers_fresh s"
  define s1 where "s1 = (case stall_stop (stallManager s, timers s) of
                  (M, T) \<Rightarrow> s\<lparr>stallManager := M, timers := T\<rparr>)"
  have 1: "timers_fresh s1" unfolding s1_def using a by (rule tf_stall_stop)
  define s2 where "s2 = s1\<lparr>polling := False, listening := False\<rparr>"
  have 2: "timers_fresh s2" unfolding s2_def using 1 by simp
  define s3 where "s3 = s2\<lparr>timers := cancel (userTypingTimer s2)
                                (cancel (inactivityTimer s2)
                                   (cancel (debounceTimer s2) (timers s2))),
                  userTyping := False\<rparr>"
  have 3: "timers_fresh s3" unfolding s3_def using tf_cancel3 [OF 2] by simp
  show ?thesis
    using 3
    by (simp add: stop_now_def Let_def s1_def [symmetric] s2_def [symmetric]
        s3_def [symmetric] split: option.splits)
qed

lemma tf_stop: "timers_fresh s \<Longrightarrow> timers_fresh (stop s)"
  by (simp add: stop_def Let_def tf_stop_now)

lemma tf_handleApproval [simp]: "timers_fresh (handleApproval r s) = timers_fresh s"
  by (simp add: handleApproval_def split: option.splits)

lemma tf_handleRejection [simp]: "timers_fresh (handleRejection r d s) = timers_fresh s"
  by (simp add: handleRejection_def split: option.splits)

lemma tf_handleUserDirective: "timers_fresh s \<Longrightarrow> timers_fresh (handleUserDirective t now s)"
  by (simp add: handleUserDirective_def tf_clearUserTypingDelay)

lemma tf_handleUserOverride: "timers_fresh s \<Longrightarrow> timers_fresh (handleUserOverride t s)"
  by (simp add: handleUserOverride_def tf_clearUserTypingDelay)

lemma tf_set_typing:
  assumes "timers_fresh s"
  shows "timers_fresh (case setTimeout User_typing_cb d now (cancel (userTypingTimer s) (timers s)) of
           (h, T) \<Rightarrow> s\<lparr>userTypingTimer := Some h, timers := T\<rparr>)"
  using assms
  by (cases "userTypingTimer s")
     (auto simp: timers_fresh_def held_timers_def setTimeout_def clearTimeout_def
        distinct_map_filter less_Suc_eq)

lemma tf_handleUserTyping: "timers_fresh s \<Longrightarrow> timers_fresh (handleUserTyping now s)"
proof -
  assume a: "timers_fresh s"
  have "timers_fresh (clearInactivity (clearDebounce (s\<lparr>userTyping := True\<rparr>)))"
    using a by (simp add: tf_clearInactivity tf_clearDebounce)
  from tf_set_typing [OF this] show ?thesis
    by (simp add: handleUserTyping_def Let_def)
qed

lemma tf_set_debounce:
  assumes "timers_fresh s"
  shows "timers_fresh (case setTimeout (Debounce_cb snap) d now (cancel (debounceTimer s) (timers s)) of
           (h, T) \<Rightarrow> s\<lparr>debounceTimer := Some h, timers := T\<rparr>)"
  using assms
  by (cases "debounceTimer s")
     (auto simp: timers_fresh_def held_timers_def setTimeout_def clearTimeout_def
        distinct_map_filter less_Suc_eq)

lemma tf_handleSnapshotChanged:
  "timers_fresh s \<Longrightarrow> timers_fresh (handleSnapshotChanged snap now s)"
  using tf_set_debounce [of s snap 2000 now]
  by (auto simp: handleSnapshotChanged_def Let_def tf_resetInactivityTimer split: prod.splits)

lemma tf_processTurn [simp]: "timers_fresh (processTurn snap s) = timers_fresh s"
  by (simp add: processTurn_def reachHumanTurn_def negotiationTurn_def extractMessagesOnly_def)

lemma tf_reachHumanTurn [simp]: "timers_fresh (reachHumanTurn snap s) = timers_fresh s"
  by (simp add: reachHumanTurn_def)

lemma tf_kickoff [simp]: "timers_fresh (kickoff c s) = timers_fresh s"
  by (simp add: kickoff_def)

lemma tf_handleInactivity [simp]: "timers_fresh (handleInactivity s) = timers_fresh s"
  by (simp add: handleInactivity_def)

lemma tf_userTypingTimer_None:
  "timers_fresh s \<Longrightarrow> timers_fresh (s\<lparr>userTypingTimer := None\<rparr>)"
  by (auto simp: timers_fresh_def held_timers_def)

lemma tf_typing_expired: "timers_fresh s \<Longrightarrow> timers_fresh (typing_expired now s)"
proof -
  assume a: "timers_fresh s"
  have "timers_fresh (s\<lparr>userTyping := False, userTypingTimer := None\<rparr>)"
    using tf_userTypingTimer_None [of "s\<lparr>userTyping := False\<rparr>"] a by simp
  then show ?thesis by (simp add: typing_expired_def tf_resetInactivityTimer)
qed

lemma tf_take_timer:
  assumes "timers_fresh s" "take_timer h (timers s) = Some (e, T)"
  shows "timers_fresh (s\<lparr>timers := T\<rparr>)"
  using assms
  by (fastforce simp: take_timer_def timers_fresh_def held_timers_def distinct_map_filter
      split: option.splits)

lemma tf_stall_fire:
  "timers_fresh s \<Longrightarrow> timers_fresh (s\<lparr>stallManager := snd (stall_fire (stallManager s))\<rparr>)"
  by (simp add: stall_fire_def timers_fresh_def held_timers_def)

lemma tf_timer_fired: "timers_fresh s \<Longrightarrow> timers_fresh (timer_fired h now s)"
proof (cases "take_timer h (timers s)")
  case None
  assume "timers_fresh s" with None show ?thesis by (simp add: timer_fired_def)
next
  case (Some a)
  assume tf: "timers_fresh s"
  obtain e T where a: "a = (e, T)" by (cases a)
  have 1: "timers_fresh (s\<lparr>timers := T\<rparr>)" using tf_take_timer [OF tf Some [unfolded a]] .
  have 2: "timers_fresh (s\<lparr>timers := T, stallManager := snd (stall_fire (stallManager s))\<rparr>)"
    using tf_stall_fire [OF 1] by simp
  show ?thesis
    using 1 2 Some a
    by (auto simp: timer_fired_def tf_typing_expired split: callback.splits prod.splits)
qed


text \<open>Continuations.\<close>

lemma tf_handleCommitmentPoint:
  assumes "timers_fresh s"
  shows "timers_fresh (handleCommitmentPoint turn uuid now s)"
  using assms
  by (auto simp: handleCommitmentPoint_def Let_def stall_start_def stall_schedule_def
      setTimeout_def timers_fresh_def held_timers_def spawn_def sendToUI_def setState_def
      less_Suc_eq)

lemma tf_negotiation_act: "timers_fresh s \<Longrightarrow> timers_fresh (negotiation_act turn w s)"
  by (auto simp: negotiation_act_def tf_handleCommitmentPoint tf_turn_finally
      split: option.splits dest: tf_executeAction)

lemma tf_negotiationTurn_result: "timers_fresh s \<Longrightarrow> timers_fresh (negotiationTurn_result w s)"
  by (auto simp: negotiationTurn_result_def Let_def tf_turn_finally tf_negotiation_act
      split: llm_result.splits list.splits)

lemma tf_negotiationTurn_researched:
  "timers_fresh s \<Longrightarrow> timers_fresh (negotiationTurn_researched turn w s)"
  by (simp add: negotiationTurn_researched_def tf_negotiation_act)

lemma tf_send_generated: "timers_fresh s \<Longrightarrow> timers_fresh (send_generated e w s)"
  by (auto simp: send_generated_def tf_turn_finally split: option.splits
      dest: tf_sendChatMessage)

lemma tf_reachHumanTurn_result: "timers_fresh s \<Longrightarrow> timers_fresh (reachHumanTurn_result w s)"
  by (auto simp: reachHumanTurn_result_def Let_def tf_turn_finally
      split: llm_result.splits option.splits dest: tf_executeAction)

lemma tf_extractMessagesOnly_result:
  "timers_fresh s \<Longrightarrow> timers_fresh (extractMessagesOnly_result w s)"
  by (simp add: extractMessagesOnly_result_def split: llm_result.splits)

lemma tf_handleCommitmentPoint_resolved:
  "timers_fresh s \<Longrightarrow> timers_fresh (handleCommitmentPoint_resolved approved now s)"
  using tf_stall_stop [of s]
  by (simp add: handleCommitmentPoint_resolved_def Let_def tf_turn_finally)

lemma tf_handleCommitmentPoint_snapshot:
  "timers_fresh s \<Longrightarrow> timers_fresh (handleCommitmentPoint_snapshot approved w s)"
  by (simp add: handleCommitmentPoint_snapshot_def tf_turn_finally split: option.splits)

lemma tf_kickoff_snapshot: "timers_fresh s \<Longrightarrow> timers_fresh (kickoff_snapshot c w s)"
  by (simp add: kickoff_snapshot_def split: option.splits)

lemma tf_kickoff_result: "timers_fresh s \<Longrightarrow> timers_fresh (kickoff_result c w s)"
  by (auto simp: kickoff_result_def tf_resetInactivityTimer
      split: llm_result.splits option.splits dest: tf_executeAction)

lemma tf_start_navigated: "timers_fresh s \<Longrightarrow> timers_fresh (start_navigated c w s)"
  by (simp add: start_navigated_def)

lemma tf_followup_snapshot: "timers_fresh s \<Longrightarrow> timers_fresh (followup_snapshot w s)"
  by (simp add: followup_snapshot_def tf_resetInactivityTimer split: option.splits)

lemma tf_followup_result: "timers_fresh s \<Longrightarrow> timers_fresh (followup_result w s)"
  by (auto simp: followup_result_def tf_resetInactivityTimer split: option.splits
      dest: tf_sendChatMessage)

lemma tf_fresh_snapshot [simp]: "timers_fresh (fresh_snapshot w s) = timers_fresh s"
  by (simp add: fresh_snapshot_def split: option.splits)

lemma tf_inactivity_snapshot [simp]: "timers_fresh (inactivity_snapshot w s) = timers_fresh s"
  by (simp add: inactivity_snapshot_def split: option.splits)

lemma tf_stop_summary [simp]: "timers_fresh (snd (stop_summary r now s)) = timers_fresh s"
  by (simp add: stop_summary_def split: option.splits)

lemma tf_set_override:
  "timers_fresh s \<Longrightarrow>
     timers_fresh (case setTimeout Override_cb d now (timers s) of (h, T) \<Rightarrow> s\<lparr>timers := T\<rparr>)"
  by (auto simp: timers_fresh_def held_timers_def setTimeout_def less_Suc_eq)

lemma tf_override_sent: "timers_fresh s \<Longrightarrow> timers_fresh (override_sent t w s)"
proof (cases "sendChatMessage (o_send w) t s")
  case None
  assume "timers_fresh s" with None show ?thesis by (simp add: override_sent_def)
next
  case (Some s')
  assume "timers_fresh s"
  with tf_sendChatMessage [OF Some] have "timers_fresh s'" by simp
  then have 1: "timers_fresh (resetInactivityTimer INACTIVITY_MS (real (o_now w))
                      (addMessage \<lparr>msg_sender = Agent, msg_text = t,
                                   msg_timestamp = o_now w\<rparr> s'))"
    by (simp add: tf_resetInactivityTimer)
  show ?thesis
    using 1 tf_set_override [OF 1, of 3000 "real (o_now w)"] Some
    by (simp add: override_sent_def Let_def)
qed

lemma tf_stall_fire_end:
  "timers_fresh s \<Longrightarrow>
     timers_fresh (case stall_fire_end sent r now (stallManager s, timers s) of
                     (M, T) \<Rightarrow> s\<lparr>stallManager := M, timers := T\<rparr>)"
  using tf_stall_schedule [of s r now "stallManager s"]
  by (auto simp: stall_fire_end_def)

lemma tf_stall_sent: "timers_fresh s \<Longrightarrow> timers_fresh (stall_sent t w s)"
proof (cases "sendChatMessage (o_send w) t s")
  case None
  assume a: "timers_fresh s"
  from tf_stall_fire_end [OF a] None show ?thesis by (simp add: stall_sent_def)
next
  case (Some s')
  assume "timers_fresh s"
  with tf_sendChatMessage [OF Some]
  have "timers_fresh (addMessage \<lparr>msg_sender = Agent, msg_text = t,
                                    msg_timestamp = o_now w\<rparr> s')" by simp
  from tf_stall_fire_end [OF this] Some show ?thesis by (simp add: stall_sent_def)
qed

lemma tf_settle: "timers_fresh s \<Longrightarrow> timers_fresh (settle t w s)"
  by (cases t)
     (simp_all add: tf_start_navigated tf_kickoff_snapshot tf_kickoff_result
        tf_reachHumanTurn_result tf_send_generated tf_negotiationTurn_result
        tf_negotiationTurn_researched tf_handleCommitmentPoint_resolved
        tf_handleCommitmentPoint_snapshot tf_extractMessagesOnly_result
        tf_followup_snapshot tf_followup_result tf_override_sent tf_stall_sent
        split: option.splits)

lemma tf_step: "timers_fresh s \<Longrightarrow> timers_fresh (step e s)"
  by (cases e)
     (simp_all add: tf_pause tf_resume tf_stop tf_handleUserDirective tf_handleUserOverride
        tf_handleUserTyping tf_handleSnapshotChanged tf_timer_fired tf_settle)

lemma tf_run: "timers_fresh s \<Longrightarrow> timers_fresh (run evs s)"
  unfolding run_def by (induction evs arbitrary: s) (simp_all add: tf_step)

lemma tf_init: "timers_fresh (start c (new_agent p prior))"
  by (simp add: start_def) (simp add: timers_fresh_def held_timers_def new_agent_def)

lemma timers_fresh_reachable: "reachable s \<Longrightarrow> timers_fresh s"
  unfolding reachable_def using tf_run [OF tf_init] by blast

subsection \<open>Debounce\<close>

lemma due_debounce_filter:
  "due_debounce t T =
     filter (\<lambda>e. fst (snd e) \<le> t)
       (filter (\<lambda>e. debounce_snapshot (snd (snd e)) \<noteq> None) (pending T))"
  by (simp add: due_debounce_def conj_commute)

lemma find_distinct:
  "distinct (map fst xs) \<Longrightarrow> e \<in> set xs \<Longrightarrow> find (\<lambda>x. fst x = fst e) xs = Some e"
  by (induction xs) (auto simp: rev_image_eqI)

lemma filter_clearTimeout:
  "filter P (pending (clearTimeout h T)) = filter (\<lambda>e. fst e \<noteq> h) (filter P (pending T))"
  by (simp add: clearTimeout_def conj_commute)

lemma changed_debounced:
  assumes "listening s" "state s \<noteq> Paused" "state s \<noteq> Idle" "state s \<noteq> Done"
    "\<not> userTyping s" "timers_fresh s"
    and old: "filter (\<lambda>e. debounce_snapshot (snd (snd e)) \<noteq> None) (pending (timers s)) = []
        \<or> (\<exists>h d c. debounceTimer s = Some h
              \<and> filter (\<lambda>e. debounce_snapshot (snd (snd e)) \<noteq> None) (pending (timers s))
                  = [(h, d, c)])"
  shows "debounced (step (Changed snapshot t) s) t snapshot"
proof -
  let ?deb = "\<lambda>e::timeout. debounce_snapshot (snd (snd e)) \<noteq> None"
  define T1 where "T1 = cancel (debounceTimer s) (timers s)"
  define n where "n = nextHandle (timers s)"
  have T1n: "nextHandle T1 = n"
    unfolding T1_def n_def by (cases "debounceTimer s") (simp_all add: clearTimeout_def)
  have T1deb: "filter ?deb (pending T1) = []"
    using old unfolding T1_def
    by (cases "debounceTimer s") (auto simp: filter_clearTimeout simp del: filter_filter)
  from assms(6) have fr: "distinct (map fst (pending (timers s)))"
    "\<forall>e \<in> set (pending (timers s)). fst e < n" "\<forall>h \<in> held_timers s. h < n"
    unfolding timers_fresh_def n_def by auto
  have T1fr: "distinct (map fst (pending T1))" "\<forall>e \<in> set (pending T1). fst e < n"
    using fr unfolding T1_def
    by (cases "debounceTimer s"; simp add: clearTimeout_def distinct_map_filter)+
  define T2 where "T2 = T1\<lparr>pending := pending T1 @ [(n, real t + 2000, Debounce_cb snapshot)],
                            nextHandle := Suc n\<rparr>"
  define T3 where "T3 = cancel (inactivityTimer s) T2"
  have ia: "\<forall>h. inactivityTimer s = Some h \<longrightarrow> h < n"
    using fr(3) by (auto simp: held_timers_def)
  have T3p: "pending T3 = pending (cancel (inactivityTimer s) T1)
                 @ [(n, real t + 2000, Debounce_cb snapshot)]"
    using ia unfolding T3_def T2_def
    by (cases "inactivityTimer s") (auto simp: clearTimeout_def)
  have T3n: "nextHandle T3 = Suc n"
    unfolding T3_def T2_def by (cases "inactivityTimer s") (simp_all add: clearTimeout_def)
  have T3deb: "filter ?deb (pending T3) = [(n, real t + 2000, Debounce_cb snapshot)]"
    using T1deb unfolding T3p
    by (cases "inactivityTimer s") (auto simp: filter_clearTimeout simp del: filter_filter)
  have T3fr: "distinct (map fst (pending T3))" "\<forall>e \<in> set (pending T3). fst e < Suc n"
    using T1fr unfolding T3p
    by (cases "inactivityTimer s"; fastforce simp: clearTimeout_def distinct_map_filter)+
  have res: "\<And>ms. handleSnapshotChanged snapshot (real t) s =
      s\<lparr>debounceTimer := Some n,
        inactivityTimer := Some (Suc n),
        timers := T3\<lparr>pending := pending T3 @ [(Suc n, real t + (if detectTypingIndicator snapshot then TYPING_INACTIVITY_MS else INACTIVITY_MS), Inactivity_cb)],
                    nextHandle := Suc (Suc n)\<rparr>\<rparr>"
    using assms(2-5) T1n T3n
    by (simp add: handleSnapshotChanged_def setTimeout_def resetInactivityTimer_def Let_def
        T1_def [symmetric] T2_def [symmetric] T3_def [symmetric])
  have held: "held_timers s \<subseteq> {h. h < n}" using fr(3) by auto
  show ?thesis
    unfolding debounced_def timers_fresh_def
    using assms(1-5) T3deb T3fr held
    by (auto simp: res held_timers_def)
qed


lemma debounced_not_due:
  assumes "debounced s t snapshot" "now < t + 2000"
  shows "run_debounce now s = ([], s)"
proof -
  from assms(1) obtain h where
    "filter (\<lambda>e. debounce_snapshot (snd (snd e)) \<noteq> None) (pending (timers s))
       = [(h, real t + 2000, Debounce_cb snapshot)]"
    unfolding debounced_def by blast
  then have "due_debounce (real now) (timers s) = []"
    using assms(2) by (simp add: due_debounce_filter del: filter_filter)
  then show ?thesis by (simp add: run_debounce_def)
qed

lemma debounced_due:
  assumes "debounced s t snapshot" "t + 2000 \<le> now"
  shows "\<exists>h. debounceTimer s = Some h
           \<and> run_debounce now s
               = ([snapshot], processTurn snapshot (s\<lparr>timers := clearTimeout h (timers s)\<rparr>))"
proof -
  from assms(1) obtain h where h: "debounceTimer s = Some h" and
    f: "filter (\<lambda>e. debounce_snapshot (snd (snd e)) \<noteq> None) (pending (timers s))
       = [(h, real t + 2000, Debounce_cb snapshot)]" and
    d: "distinct (map fst (pending (timers s)))"
    unfolding debounced_def timers_fresh_def by blast
  have due: "due_debounce (real now) (timers s) = [(h, real t + 2000, Debounce_cb snapshot)]"
    using assms(2) f by (simp add: due_debounce_filter del: filter_filter)
  have "(h, real t + 2000, Debounce_cb snapshot)
          \<in> set (filter (\<lambda>e. debounce_snapshot (snd (snd e)) \<noteq> None) (pending (timers s)))"
    unfolding f by simp
  then have "(h, real t + 2000, Debounce_cb snapshot) \<in> set (pending (timers s))" by simp
  from find_distinct [OF d this]
  have "take_timer h (timers s)
          = Some ((real t + 2000, Debounce_cb snapshot), clearTimeout h (timers s))"
    by (simp add: take_timer_def clearTimeout_def)
  then have "step (Timer_fired h now) s
               = processTurn snapshot (s\<lparr>timers := clearTimeout h (timers s)\<rparr>)"
    by (simp add: timer_fired_def)
  then show ?thesis using h due by (simp add: run_debounce_def)
qed

lemma burst_debounced:
  assumes "debounced s t snapshot" "within_window ((t, snapshot) # evs)"
  shows "fst (deliver_changes evs s) = []
         \<and> debounced (snd (deliver_changes evs s))
              (fst (last ((t, snapshot) # evs))) (snd (last ((t, snapshot) # evs)))"
  using assms
proof (induction evs arbitrary: s t snapshot)
  case Nil
  then show ?case by simp
next
  case (Cons e evs)
  obtain t' snap' where e: "e = (t', snap')" by (cases e)
  from Cons.prems(2) e have w: "t \<le> t'" "t' < t + 2000" "within_window ((t', snap') # evs)"
    by simp_all
  from debounced_not_due [OF Cons.prems(1) w(2)] have r: "run_debounce t' s = ([], s)" .
  from Cons.prems(1) have "debounced (step (Changed snap' t') s) t' snap'"
    unfolding debounced_def [of s]
    by (intro changed_debounced) auto
  from Cons.IH [OF this w(3)] show ?case
    by (simp add: e r split: prod.splits)
qed

lemma burst_core:
  assumes "debounced s t snapshot" "within_window ((t, snapshot) # evs)"
  shows "core (snd (deliver_changes evs s)) = core s"
  using assms
proof (induction evs arbitrary: s t snapshot)
  case Nil
  then show ?case by simp
next
  case (Cons e evs)
  obtain t' snap' where e: "e = (t', snap')" by (cases e)
  from Cons.prems(2) e have w: "t \<le> t'" "t' < t + 2000" "within_window ((t', snap') # evs)"
    by simp_all
  from debounced_not_due [OF Cons.prems(1) w(2)] have r: "run_debounce t' s = ([], s)" .
  from Cons.prems(1) have d: "debounced (step (Changed snap' t') s) t' snap'"
    unfolding debounced_def [of s]
    by (intro changed_debounced) auto
  have c: "core (step (Changed snap' t') s) = core s"
    by (simp add: core_handleSnapshotChanged)
  from Cons.IH [OF d w(3)] c show ?case
    by (simp add: e r split: prod.splits)
qed

lemma processTurn_dropped: "waitingForLLM s \<Longrightarrow> processTurn snap s = s"
  by (simp add: processTurn_def reachHumanTurn_def negotiationTurn_def extractMessagesOnly_def)

text \<open>Once the debounce timer has fired, no debounce timer is left.\<close>

lemma debounced_fired:
  assumes "debounced s t snapshot" "t + 2000 \<le> now"
  shows "run_debounce later (snd (run_debounce now s)) = ([], snd (run_debounce now s))"
proof -
  from debounced_due [OF assms] obtain h where h: "debounceTimer s = Some h"
    and r: "run_debounce now s
               = ([snapshot], processTurn snapshot (s\<lparr>timers := clearTimeout h (timers s)\<rparr>))"
    by blast
  from assms(1) h have
    f: "filter (\<lambda>e. debounce_snapshot (snd (snd e)) \<noteq> None) (pending (timers s))
       = [(h, real t + 2000, Debounce_cb snapshot)]"
    unfolding debounced_def by auto
  define R where "R = processTurn snapshot (s\<lparr>timers := clearTimeout h (timers s)\<rparr>)"
  have rr: "snd (run_debounce now s) = R" by (simp add: r R_def)
  have t: "timers R = clearTimeout h (timers s)"
    by (simp add: R_def processTurn_def reachHumanTurn_def negotiationTurn_def
        extractMessagesOnly_def spawn_def sendToUI_def)
  have "filter (\<lambda>e. debounce_snapshot (snd (snd e)) \<noteq> None)
          (pending (clearTimeout h (timers s))) = []"
    using f by (simp add: filter_clearTimeout del: filter_filter)
  then have "due_debounce (real later) (timers R) = []"
    by (simp add: t due_debounce_filter del: filter_filter)
  then have "run_debounce later R = ([], R)" by (simp add: run_debounce_def)
  then show ?thesis by (simp only: rr)
qed

lemma burst_outcome:
  assumes "listening s" "state s \<noteq> Paused" "state s \<noteq> Idle" "state s \<noteq> Done"
    and "\<not> userTyping s" and "timers_fresh s"
    and "\<forall>e \<in> set (pending (timers s)). debounce_snapshot (snd (snd e)) = None"
    and "evs \<noteq> []" and "within_window evs"
  shows "fst (deliver_changes evs s) = []"
    and "core (snd (deliver_changes evs s)) = core s"
    and "debounced (snd (deliver_changes evs s)) (fst (last evs)) (snd (last evs))"
proof -
  from assms(8) obtain t snapshot rest where evs: "evs = (t, snapshot) # rest"
    by (cases evs) auto
  have none: "filter (\<lambda>e. debounce_snapshot (snd (snd e)) \<noteq> None) (pending (timers s)) = []"
    using assms(7) by (auto simp: filter_empty_conv)
  then have "due_debounce (real t) (timers s) = []"
    by (simp add: due_debounce_filter del: filter_filter)
  then have r: "run_debounce t s = ([], s)" by (simp add: run_debounce_def)
  have d0: "debounced (step (Changed snapshot t) s) t snapshot"
    using assms(1-6) none
    by (intro changed_debounced) auto
  have c0: "core (step (Changed snapshot t) s) = core s"
    by (simp add: core_handleSnapshotChanged)
  from burst_debounced [OF d0 assms(9) [unfolded evs]]
  have b: "fst (deliver_changes rest (step (Changed snapshot t) s)) = []"
    "debounced (snd (deliver_changes rest (step (Changed snapshot t) s)))
       (fst (last evs)) (snd (last evs))"
    unfolding evs by simp_all
  have dc: "deliver_changes evs s = deliver_changes rest (step (Changed snapshot t) s)"
    using b(1) by (simp add: evs r split: prod.splits)
  show "fst (deliver_changes evs s) = []" unfolding dc by (rule b(1))
  show "core (snd (deliver_changes evs s)) = core s"
    unfolding dc using burst_core [OF d0 assms(9) [unfolded evs]] c0 by simp
  show "debounced (snd (deliver_changes evs s)) (fst (last evs)) (snd (last evs))"
    unfolding dc by (rule b(2))
qed

text \<open>
  Against C6 as stated: the reach-human turn is waiting for its decision on the
  snapshot \<open>page1\<close> when a burst of three change events arrives; the agent listens,
  the phase is \<open>reaching_human\<close> and the user is not typing. The debounce timer
  fires 2000 ms after the last event and calls \<open>processTurn\<close> with the last
  snapshot, which returns at the test of \<open>waitingForLLM\<close>: no turn is started for
  the burst.
\<close>

theorem burst_during_turn_starts_no_turn:
  "listening (run session_to_reach_call fresh) = True
   \<and> state (run session_to_reach_call fresh) = Reaching_human
   \<and> userTyping (run session_to_reach_call fresh) = False
   \<and> tasks (run session_to_reach_call fresh) = [Reach_llm ''page1'']
   \<and> within_window burst
   \<and> fst (deliver_changes burst (run session_to_reach_call fresh)) = []
   \<and> fst (run_debounce 11900 (snd (deliver_changes burst (run session_to_reach_call fresh))))
       = [''c'']
   \<and> tasks (snd (run_debounce 11900
                    (snd (deliver_changes burst (run session_to_reach_call fresh)))))
       = [Reach_llm ''page1'']"
  by (simp add: exec burst_def run_debounce_def due_debounce_def)

text \<open>
  C6 (as amended). Take a reachable state in which the agent listens to the observer,
  in a phase other than \<open>paused\<close>, \<open>idle\<close> and \<open>done\<close>, with the user not
  typing and no debounce timer pending, and a burst of change events, each less than
  2000 ms after the one before, with nothing else happening meanwhile. While the
  burst lasts, and until 2000 ms have passed since its last event, \<open>processTurn\<close>
  is not called and the suspended tasks, the flag and the phase stay as they were.
  From then on the debounce timer fires, once, and calls \<open>processTurn\<close> with the
  snapshot of the last event; no debounce timer is left after it. When no turn was in
  flight, this call starts exactly one turn on that snapshot, the reach-human turn
  in the phase \<open>reaching_human\<close> and the negotiation turn in the phase
  \<open>negotiating\<close>, and sets the flag; when a turn was in flight, the call is
  dropped: the suspended tasks and the log stay as they were.
\<close>

theorem debounce_burst_dispatches_once:
  assumes "listening s" "state s \<noteq> Paused" "state s \<noteq> Idle" "state s \<noteq> Done"
    and "\<not> userTyping s" and "reachable s"
    and "\<forall>e \<in> set (pending (timers s)). debounce_snapshot (snd (snd e)) = None"
    and "evs \<noteq> []" and "within_window evs"
  shows "fst (deliver_changes evs s) = []
    \<and> tasks (snd (deliver_changes evs s)) = tasks s
    \<and> waitingForLLM (snd (deliver_changes evs s)) = waitingForLLM s
    \<and> state (snd (deliver_changes evs s)) = state s
    \<and> (\<forall>now. now < fst (last evs) + 2000 \<longrightarrow>
          run_debounce now (snd (deliver_changes evs s)) = ([], snd (deliver_changes evs s)))
    \<and> (\<forall>now. fst (last evs) + 2000 \<le> now \<longrightarrow>
          (\<exists>h. debounceTimer (snd (deliver_changes evs s)) = Some h
             \<and> run_debounce now (snd (deliver_changes evs s))
                 = ([snd (last evs)],
                    processTurn (snd (last evs))
                      ((snd (deliver_changes evs s))
                         \<lparr>timers := clearTimeout h (timers (snd (deliver_changes evs s)))\<rparr>)))
          \<and> (\<forall>later. run_debounce later (snd (run_debounce now (snd (deliver_changes evs s))))
                 = ([], snd (run_debounce now (snd (deliver_changes evs s)))))
          \<and> (\<not> waitingForLLM s \<and> state s = Reaching_human \<longrightarrow>
                tasks (snd (run_debounce now (snd (deliver_changes evs s))))
                  = tasks s @ [Reach_llm (snd (last evs))]
                \<and> waitingForLLM (snd (run_debounce now (snd (deliver_changes evs s)))))
          \<and> (\<not> waitingForLLM s \<and> state s = Negotiating \<longrightarrow>
                tasks (snd (run_debounce now (snd (deliver_changes evs s))))
                  = tasks s @ [Negotiate_llm (snd (last evs))]
                \<and> waitingForLLM (snd (run_debounce now (snd (deliver_changes evs s)))))
          \<and> (waitingForLLM s \<longrightarrow>
                tasks (snd (run_debounce now (snd (deliver_changes evs s)))) = tasks s
                \<and> conversation (snd (run_debounce now (snd (deliver_changes evs s))))
                    = conversation (snd (deliver_changes evs s))))"
proof -
  define S where "S = snd (deliver_changes evs s)"
  note b = burst_outcome [OF assms(1-5) timers_fresh_reachable [OF assms(6)] assms(7-9),
      folded S_def]
  from b(2) have f: "tasks S = tasks s" "waitingForLLM S = waitingForLLM s" "state S = state s"
    by (simp_all add: core_eq_iff)
  from b(3) have ut: "\<not> userTyping S" by (simp add: debounced_def)
  have late: "\<And>now. fst (last evs) + 2000 \<le> now \<Longrightarrow>
          (\<exists>h. debounceTimer S = Some h
             \<and> run_debounce now S
                 = ([snd (last evs)],
                    processTurn (snd (last evs)) (S\<lparr>timers := clearTimeout h (timers S)\<rparr>)))
          \<and> (\<forall>later. run_debounce later (snd (run_debounce now S))
                 = ([], snd (run_debounce now S)))
          \<and> (\<not> waitingForLLM s \<and> state s = Reaching_human \<longrightarrow>
                tasks (snd (run_debounce now S)) = tasks s @ [Reach_llm (snd (last evs))]
                \<and> waitingForLLM (snd (run_debounce now S)))
          \<and> (\<not> waitingForLLM s \<and> state s = Negotiating \<longrightarrow>
                tasks (snd (run_debounce now S)) = tasks s @ [Negotiate_llm (snd (last evs))]
                \<and> waitingForLLM (snd (run_debounce now S)))
          \<and> (waitingForLLM s \<longrightarrow>
                tasks (snd (run_debounce now S)) = tasks s
                \<and> conversation (snd (run_debounce now S)) = conversation S)"
  proof -
    fix now assume n: "fst (last evs) + 2000 \<le> now"
    from debounced_due [OF b(3) n] obtain h where h: "debounceTimer S = Some h"
      and r: "run_debounce now S
               = ([snd (last evs)],
                  processTurn (snd (last evs)) (S\<lparr>timers := clearTimeout h (timers S)\<rparr>))"
      by blast
    have 1: "\<not> waitingForLLM s \<and> state s = Reaching_human \<longrightarrow>
                tasks (snd (run_debounce now S)) = tasks s @ [Reach_llm (snd (last evs))]
                \<and> waitingForLLM (snd (run_debounce now S))"
      using f ut by (simp add: r processTurn_def reachHumanTurn_def)
    have 2: "\<not> waitingForLLM s \<and> state s = Negotiating \<longrightarrow>
                tasks (snd (run_debounce now S)) = tasks s @ [Negotiate_llm (snd (last evs))]
                \<and> waitingForLLM (snd (run_debounce now S))"
      using f ut by (simp add: r processTurn_def negotiationTurn_def)
    have 3: "waitingForLLM s \<longrightarrow>
                tasks (snd (run_debounce now S)) = tasks s
                \<and> conversation (snd (run_debounce now S)) = conversation S"
      using f by (simp add: r processTurn_dropped)
    from h r debounced_fired [OF b(3) n] 1 2 3 show "?thesis now" by blast
  qed
  show ?thesis
    unfolding S_def [symmetric]
    using b(1) f debounced_not_due [OF b(3)] late by blast
qed

lemma glance_negotiating:
  "glance (run session_to_negotiating fresh) =
     (Negotiating, None, False, False, [], [(2, 26000, Inactivity_cb)])"
  by (simp add: exec)

lemma glance_timers_negotiating:
  "glance_timers (run session_to_negotiating fresh) =
     (True, False, Some 0, Some 2, None, None, 3)"
  by (simp add: exec glance_timers_def)

theorem debounce_burst_dispatches_once_witness:
  "fst (deliver_changes [(30000, ''a''), (30500, ''b''), (31900, ''c'')]
          (run session_to_negotiating fresh)) = []
   \<and> fst (run_debounce 33899
            (snd (deliver_changes [(30000, ''a''), (30500, ''b''), (31900, ''c'')]
                    (run session_to_negotiating fresh)))) = []
   \<and> fst (run_debounce 33900
            (snd (deliver_changes [(30000, ''a''), (30500, ''b''), (31900, ''c'')]
                    (run session_to_negotiating fresh)))) = [''c'']
   \<and> tasks (snd (run_debounce 33900
            (snd (deliver_changes [(30000, ''a''), (30500, ''b''), (31900, ''c'')]
                    (run session_to_negotiating fresh))))) = [Negotiate_llm ''c'']
   \<and> waitingForLLM (snd (run_debounce 33900
            (snd (deliver_changes [(30000, ''a''), (30500, ''b''), (31900, ''c'')]
                    (run session_to_negotiating fresh))))) = True"
proof -
  define S where "S = run session_to_negotiating fresh"
  define ev where "ev = [(30000::nat, ''a''), (30500, ''b''), (31900, ''c'')]"
  have a: "listening S" "state S \<noteq> Paused" "state S \<noteq> Idle" "state S \<noteq> Done"
    "\<not> userTyping S" "reachable S"
    "\<forall>e \<in> set (pending (timers S)). debounce_snapshot (snd (snd e)) = None"
    and n: "\<not> waitingForLLM S" "state S = Negotiating" "tasks S = []"
    unfolding S_def
    using glance_negotiating glance_timers_negotiating
    by (simp_all add: glance_def glance_timers_def reachable_fresh)
  have e: "ev \<noteq> []" "within_window ev" and l: "last ev = (31900, ''c'')"
    by (simp_all add: ev_def)
  note T = debounce_burst_dispatches_once [OF a e]
  note early = T [THEN conjunct2, THEN conjunct2, THEN conjunct2, THEN conjunct2,
      THEN conjunct1, rule_format, of 33899]
  note late = T [THEN conjunct2, THEN conjunct2, THEN conjunct2, THEN conjunct2,
      THEN conjunct2, rule_format, of 33900]
  have 1: "fst (deliver_changes ev S) = []" using T by (rule conjunct1)
  have 2: "fst (run_debounce 33899 (snd (deliver_changes ev S))) = []"
    using early by (simp add: l)
  have 3: "fst (run_debounce 33900 (snd (deliver_changes ev S))) = [''c'']
     \<and> tasks (snd (run_debounce 33900 (snd (deliver_changes ev S)))) = [Negotiate_llm ''c'']
     \<and> waitingForLLM (snd (run_debounce 33900 (snd (deliver_changes ev S)))) = True"
    using late n by (auto simp: l)
  from 1 2 3 show ?thesis unfolding S_def ev_def by blast
qed


end
